theory Spec2Isabelle
  imports Complex_Main "HOL-Library.Multiset" "HOL-Library.AList" "HOL-Library.Sublist"
begin

section \<open>Time\<close>

text \<open>
  A JavaScript \<open>Date\<close> is its time value: the number of milliseconds since
  1970-01-01T00:00:00Z, or NaN for an invalid date. The model keeps the time value
  as an \<open>int\<close>. An ISO string written by \<open>toISOString\<close> is identified with the
  instant it denotes: \<open>new Date(d.toISOString()).getTime()\<close> is \<open>d.getTime()\<close>, and
  for years 0000 to 9999 the strings order as the instants do.
\<close>

type_synonym instant = int

datatype jsdate = InvalidDate | Date instant

datatype error = RangeError | TypeError | H3Error | TransportError

definition msPerHour :: int where
  "msPerHour = 3600 * 1000"

text \<open>\<open>d.setUTCMinutes(0, 0, 0)\<close>: the start of the UTC hour that holds \<open>t\<close>.\<close>

definition floorHour :: "instant \<Rightarrow> instant" where
  "floorHour t = t - t mod msPerHour"

definition getUTCHours :: "instant \<Rightarrow> nat" where
  "getUTCHours t = nat ((t div msPerHour) mod 24)"

text \<open>
  \<open>hourISO(d)\<close> of server.js. \<open>toISOString\<close> throws a RangeError on an invalid date.
\<close>

fun hourISO :: "jsdate \<Rightarrow> error + instant" where
  "hourISO InvalidDate = Inl RangeError"
| "hourISO (Date t) = Inr (floorHour t)"

section \<open>The in-memory time-series store (server.js)\<close>

record sbucket =
  sb_ts :: instant
  sb_free :: real
  sb_occ :: real
  sb_total :: real
  sb_n :: nat

text \<open>
  The argument of \<open>recordAreaSample\<close>. The numeric fields are the values after
  \<open>Number(x) || 0\<close>; \<open>sm_ts = None\<close> is the omitted \<open>ts\<close>, which defaults to
  \<open>new Date()\<close>.
\<close>

record sample =
  sm_free :: real
  sm_occ :: real
  sm_total :: real
  sm_ts :: "jsdate option"

text \<open>
  \<open>AREA_HOURLY\<close> is a \<open>Map\<close> from area id to a \<open>Map\<close> from hour key to bucket. Both
  are association lists in insertion order; \<open>AList.update\<close> overwrites a key in place
  and appends a new key, as \<open>Map.prototype.set\<close> does.
\<close>

type_synonym hourly = "(instant \<times> sbucket) list"
type_synonym store = "(string \<times> hourly) list"

definition pruneOld :: "instant \<Rightarrow> hourly \<Rightarrow> int \<Rightarrow> hourly" where
  "pruneOld now buckets days =
     (let cut = now - days * 24 * 3600 * 1000
      in filter (\<lambda>(k, b). \<not> k < cut) buckets)"

text \<open>
  \<open>buckets.get(key) || { ts: key, free: 0, occ: 0, total: 0, n: 0 }\<close>, and the four
  additions that merge a sample into a bucket.
\<close>

definition bucketAt :: "hourly \<Rightarrow> instant \<Rightarrow> sbucket" where
  "bucketAt buckets key =
     (case map_of buckets key of
        None \<Rightarrow> \<lparr>sb_ts = key, sb_free = 0, sb_occ = 0, sb_total = 0, sb_n = 0\<rparr>
      | Some b0 \<Rightarrow> b0)"

definition mergeSample :: "sbucket \<Rightarrow> sample \<Rightarrow> sbucket" where
  "mergeSample b s =
     b\<lparr>sb_free := sb_free b + sm_free s, sb_occ := sb_occ b + sm_occ s,
       sb_total := sb_total b + sm_total s, sb_n := sb_n b + 1\<rparr>"

text \<open>
  \<open>recordAreaSample\<close>. \<open>now\<close> is the clock reading, the same for the default \<open>ts\<close> and
  for \<open>Date.now()\<close> in \<open>_pruneOld\<close>. The result is the store after the call, or the error
  thrown by \<open>hourISO\<close> before the store is touched.
\<close>

definition recordAreaSample :: "instant \<Rightarrow> store \<Rightarrow> string \<Rightarrow> sample \<Rightarrow> error + store" where
  "recordAreaSample now st areaId s =
     (if areaId = [] then Inr st
      else case hourISO (case sm_ts s of None \<Rightarrow> Date now | Some d \<Rightarrow> d) of
        Inl e \<Rightarrow> Inl e
      | Inr key \<Rightarrow>
          let buckets = (case map_of st areaId of None \<Rightarrow> [] | Some bs \<Rightarrow> bs);
              b = mergeSample (bucketAt buckets key) s
          in Inr (AList.update areaId (pruneOld now (AList.update key b buckets) 30) st))"

text \<open>The retention of the store, 30 days in milliseconds.\<close>

definition retentionMs :: int where
  "retentionMs = 30 * 24 * 3600 * 1000"

section \<open>Forecasting from an hour-of-day profile (server.js)\<close>

text \<open>
  In the forecaster JavaScript numbers are modelled as exact reals: the rounding error
  of binary floating point is not part of this section. \<open>Math.round\<close> rounds half up.
\<close>

definition js_round :: "real \<Rightarrow> int" where
  "js_round x = \<lfloor>x + 1 / 2\<rfloor>"

definition clamp01 :: "real \<Rightarrow> real" where
  "clamp01 x = max 0 (min 1 x)"

text \<open>
  A row handed to \<open>buildHodProfile\<close>. \<open>r_ts = None\<close> is a \<open>ts\<close> that is neither a
  string nor a \<open>Date\<close>; otherwise it is \<open>new Date(r.ts)\<close>. The numeric fields are the
  values of \<open>Number(r.total || 0)\<close>, \<open>Number(r.free || 0)\<close> and \<open>Number(r.occ || 0)\<close>.
\<close>

record hrow =
  r_ts :: "jsdate option"
  r_free :: real
  r_occ :: real
  r_total :: real

record profile =
  mean :: "real list"
  q10 :: "real list"
  q90 :: "real list"
  totalFromRows :: real

text \<open>
  \<open>_quantile(sortedArr, q)\<close>; \<open>None\<close> is the \<open>null\<close> returned for an empty array.
  For \<open>0 \<le> q \<le> 1\<close>, as at both call sites, the index \<open>base\<close> is in range. Outside
  that range the source reads \<open>a[base]\<close> past the array and returns \<open>undefined\<close>, which
  the model does not tell apart from \<open>null\<close>.
\<close>

definition quantile :: "real list \<Rightarrow> real \<Rightarrow> real option" where
  "quantile a q =
     (if a = [] then None
      else let pos = (real (length a) - 1) * q;
               base = \<lfloor>pos\<rfloor>;
               rest = pos - of_int base
           in if base < 0 \<or> int (length a) \<le> base then None
              else if nat base + 1 < length a
                then Some (a ! nat base + rest * (a ! (nat base + 1) - a ! nat base))
                else Some (a ! nat base))"

definition rowHour :: "hrow \<Rightarrow> nat option" where
  "rowHour r = (case r_ts r of Some (Date t) \<Rightarrow> Some (getUTCHours t) | _ \<Rightarrow> None)"

definition rowFreeRatio :: "hrow \<Rightarrow> real" where
  "rowFreeRatio r =
     (let tot = r_total r; free = r_free r;
          denom = (if tot > 0 then tot else max 1 (free + r_occ r))
      in max 0 (min 1 (free / denom)))"

text \<open>The first loop of \<open>buildHodProfile\<close>: the 24 buckets of free ratios and the totals.\<close>

fun pushRows :: "hrow list \<Rightarrow> real list list \<times> real list \<Rightarrow> real list list \<times> real list" where
  "pushRows [] acc = acc"
| "pushRows (r # rs) (buckets, totals) =
     (case rowHour r of
        None \<Rightarrow> pushRows rs (buckets, totals)
      | Some h \<Rightarrow>
          if h > 23 then pushRows rs (buckets, totals)
          else pushRows rs (buckets[h := buckets ! h @ [rowFreeRatio r]],
                            if r_total r > 0 then totals @ [r_total r] else totals))"

definition hodMean :: "real list \<Rightarrow> real" where
  "hodMean bucket =
     (let arr = sort bucket
      in if arr = [] then 1 / 2 else clamp01 (sum_list arr / real (length arr)))"

definition hodQ :: "real \<Rightarrow> real \<Rightarrow> real list \<Rightarrow> real" where
  "hodQ q dflt bucket =
     (let arr = sort bucket
      in if arr = [] then dflt
         else case quantile arr q of None \<Rightarrow> dflt | Some v \<Rightarrow> clamp01 v)"

definition buildHodProfile :: "hrow list \<Rightarrow> profile" where
  "buildHodProfile rows =
     (let (buckets, totals) = pushRows rows (replicate 24 [], [])
      in \<lparr>mean = map hodMean buckets,
          q10 = map (hodQ (1 / 10) (1 / 4)) buckets,
          q90 = map (hodQ (9 / 10) (9 / 10)) buckets,
          totalFromRows = (case totals of [] \<Rightarrow> 0 | t # ts \<Rightarrow> fold max ts t)\<rparr>)"

record forecastPoint =
  fp_ts :: instant
  expected_available :: int
  lo80 :: int
  hi80 :: int
  free_ratio :: real

text \<open>\<open>arr[i] ?? d\<close>: the default stands in for an index past the array.\<close>

definition nthOr :: "real list \<Rightarrow> nat \<Rightarrow> real \<Rightarrow> real" where
  "nthOr xs i d = (if i < length xs then xs ! i else d)"

text \<open>
  One iteration of the loop of \<open>forecastNextHoursFromHod\<close>. \<open>baseTotal\<close> is a bay
  count, an integer.
\<close>

definition forecastAt :: "instant \<Rightarrow> int \<Rightarrow> real list \<Rightarrow> real list \<Rightarrow> real list \<Rightarrow> nat \<Rightarrow> forecastPoint" where
  "forecastAt start baseTotal mn lo hi i =
     (let t = start + int i * 3600 * 1000;
          hod = getUTCHours t;
          fr = min 1 (max 0 (nthOr mn hod (1 / 2)));
          frLo = min 1 (max 0 (nthOr lo hod (fr * (8 / 10))));
          frHi = min 1 (max 0 (nthOr hi hod (min 1 (fr * (11 / 10)))));
          muAvail = fr * of_int baseTotal
      in \<lparr>fp_ts = t,
          expected_available = js_round muAvail,
          lo80 = max 0 (js_round (frLo * of_int baseTotal)),
          hi80 = min baseTotal (js_round (frHi * of_int baseTotal)),
          free_ratio = fr\<rparr>)"

text \<open>
  \<open>forecastNextHoursFromHod\<close>: \<open>now\<close> is the clock reading of \<open>new Date()\<close>, and
  \<open>start\<close> is the next full hour.
\<close>

definition forecastNextHoursFromHod :: "instant \<Rightarrow> nat \<Rightarrow> int \<Rightarrow> real list \<Rightarrow> real list \<Rightarrow> real list \<Rightarrow> forecastPoint list" where
  "forecastNextHoursFromHod now hours baseTotal mn lo hi =
     (let start = floorHour now + msPerHour
      in map (forecastAt start baseTotal mn lo hi) [0..<hours])"

definition forecastFromRows :: "instant \<Rightarrow> nat \<Rightarrow> int \<Rightarrow> hrow list \<Rightarrow> forecastPoint list" where
  "forecastFromRows now hours baseTotal rows =
     (let p = buildHodProfile rows
      in forecastNextHoursFromHod now hours baseTotal (mean p) (q10 p) (q90 p))"

text \<open>
  A concrete history: twelve buckets in the UTC hour 01:00 of one bay, free in one
  bucket out of twelve.
\<close>

definition skewRow :: "real \<Rightarrow> hrow" where
  "skewRow f = \<lparr>r_ts = Some (Date 3600000), r_free = f, r_occ = 1 - f, r_total = 1\<rparr>"

definition skewRows :: "hrow list" where
  "skewRows = replicate 11 (skewRow 0) @ [skewRow 1]"

definition skewPoint :: forecastPoint where
  "skewPoint = \<lparr>fp_ts = 3600000, expected_available = 1, lo80 = 0, hi80 = 0, free_ratio = 1 / 12\<rparr>"

section \<open>Numbers\<close>

text \<open>
  A JavaScript number is an IEEE 754 binary64 value. Where the digits of a result
  matter, the model rounds as the machine does: \<open>f64 x\<close> is the double nearest to the
  real \<open>x\<close>, a tie going to the even significand. A double is \<open>m * 2 ^ e\<close> with
  \<open>\<bar>m\<bar> \<le> 2 ^ 53\<close> and \<open>e \<ge> -1074\<close>; below \<open>2 ^ -1022\<close> the spacing stays
  \<open>2 ^ -1074\<close> (subnormal numbers). The model has no \<open>Infinity\<close> and no \<open>NaN\<close>: it
  describes the runs whose numbers stay below \<open>2 ^ 1024\<close> in magnitude.
\<close>

text \<open>\<open>ilog2 n\<close> is the position of the leading bit of \<open>n\<close>.\<close>

fun ilog2 :: "nat \<Rightarrow> nat" where
  "ilog2 n = (if n < 2 then 0 else Suc (ilog2 (n div 2)))"

declare ilog2.simps [simp del]

text \<open>The binary exponent of \<open>x \<noteq> 0\<close>: \<open>2 ^ expo x \<le> \<bar>x\<bar> < 2 ^ (expo x + 1)\<close>.\<close>

definition expo :: "real \<Rightarrow> int" where
  "expo x =
     (if 1 \<le> \<bar>x\<bar> then int (ilog2 (nat \<lfloor>\<bar>x\<bar>\<rfloor>))
      else - int (Suc (ilog2 (nat \<lceil>1 / \<bar>x\<bar>\<rceil> - 1))))"

text \<open>Rounding to the nearest integer, a tie going to the even one.\<close>

definition roundEven :: "real \<Rightarrow> int" where
  "roundEven z =
     (let f = \<lfloor>z\<rfloor>; d = z - of_int f
      in if d < 1 / 2 then f else if 1 / 2 < d then f + 1 else if even f then f else f + 1)"

text \<open>The spacing of the doubles around \<open>x\<close>, and the double nearest to \<open>x\<close>.\<close>

definition ulp :: "real \<Rightarrow> real" where
  "ulp x = 2 powi (max (expo x) (- 1022) - 52)"

definition f64 :: "real \<Rightarrow> real" where
  "f64 x = of_int (roundEven (x / ulp x)) * ulp x"

section \<open>Spatial aggregation (lib/areas.js)\<close>



record bucket =
  b_area_id :: string
  b_total_bays :: real
  b_available_bays :: real
  b_updated_at :: "instant option"
  b_sample_bays :: "string list"

record areaCell =
  area_id :: string
  center :: "real \<times> real"
  boundary :: "(real \<times> real) list"
  total_bays :: real
  available_bays :: real
  occupancy_rate :: real
  updated_at :: "instant option"
  sample_bays :: "string list"

text \<open>
  The decimal that \<open>x.toFixed(f)\<close> prints: \<open>toFixed\<close> rounds the absolute value of
  \<open>x\<close>, taken exactly, to \<open>f\<close> decimals, a tie going to the larger digit string, and
  keeps the sign. \<open>Number(x.toFixed(f))\<close> is the double nearest to this decimal.
\<close>

definition toFixedNum :: "nat \<Rightarrow> real \<Rightarrow> real" where
  "toFixedNum f x =
     (if x < 0 then - (of_int \<lfloor>(- x) * 10 ^ f + 1 / 2\<rfloor> / 10 ^ f)
      else of_int \<lfloor>x * 10 ^ f + 1 / 2\<rfloor> / 10 ^ f)"






section \<open>Ranking (lib/areas.js, lib/geo.js)\<close>

definition toRad :: "real \<Rightarrow> real" where
  "toRad d = d * pi / 180"

text \<open>\<open>Math.atan2\<close> on reals.\<close>

definition atan2 :: "real \<Rightarrow> real \<Rightarrow> real" where
  "atan2 y x =
     (if x > 0 then arctan (y / x)
      else if x < 0 then (if y \<ge> 0 then arctan (y / x) + pi else arctan (y / x) - pi)
      else if y > 0 then pi / 2 else if y < 0 then - pi / 2 else 0)"

definition haversineMeters :: "real \<Rightarrow> real \<Rightarrow> real \<Rightarrow> real \<Rightarrow> real" where
  "haversineMeters lat1 lon1 lat2 lon2 =
     (let R = 6371000;
          dLat = toRad (lat2 - lat1);
          dLon = toRad (lon2 - lon1);
          a = (sin (dLat / 2))\<^sup>2 + cos (toRad lat1) * cos (toRad lat2) * (sin (dLon / 2))\<^sup>2;
          c = 2 * atan2 (sqrt a) (sqrt (1 - a))
      in R * c)"

text \<open>
  An element of the result of \<open>rankAreas\<close>: \<open>{ ...a, _distance_m: d, _score: s }\<close>, the
  cell with two more fields. \<open>rk_distance_m = None\<close> is \<open>null\<close>.
\<close>

record rankedCell = areaCell +
  rk_distance_m :: "real option"
  rk_score :: real

text \<open>
  \<open>d ? d / k : 0\<close>: \<open>null\<close> and 0 are falsy. The distance and the score are computed on
  reals.
\<close>

definition distPenalty :: "real option \<Rightarrow> real \<Rightarrow> real" where
  "distPenalty d k = (case d of None \<Rightarrow> 0 | Some v \<Rightarrow> if v = 0 then 0 else v / k)"

definition rankOne :: "real option \<Rightarrow> real option \<Rightarrow> string \<Rightarrow> areaCell \<Rightarrow> rankedCell" where
  "rankOne lat lng by a =
     (let d = (case (lat, lng) of
                 (Some la, Some lg) \<Rightarrow> Some (haversineMeters la lg (fst (center a)) (snd (center a)))
               | _ \<Rightarrow> None);
          available = available_bays a;
          occ = occupancy_rate a;
          score = (if by = ''availability'' then available - distPenalty d 50
                   else if by = ''occupancy'' then (1 - occ) - distPenalty d 5000
                   else if by = ''distance'' then - (case d of None \<Rightarrow> 0 | Some v \<Rightarrow> v)
                   else (available * 2) - distPenalty d 30 - (occ * 10))
      in areaCell.extend a (rankedCell.fields d (toFixedNum 3 score)))"

text \<open>
  \<open>Array.prototype.sort\<close> is stable; with the comparator \<open>y._score - x._score\<close> it
  sorts by descending score.
\<close>

definition rankAreas :: "areaCell list \<Rightarrow> real option \<Rightarrow> real option \<Rightarrow> string \<Rightarrow> rankedCell list" where
  "rankAreas areas lat lng by = sort_key (\<lambda>x. - rk_score x) (map (rankOne lat lng by) areas)"








section \<open>JavaScript values and the runtime\<close>

text \<open>
  A row of an upstream dataset is a JSON object. Strings are lists of characters with
  codes below 256. A JSON number is finite.
\<close>

datatype jsval =
    JUndefined
  | JNull
  | JBool bool
  | JNum real
  | JStr string
  | JArr "jsval list"
  | JObj "(string \<times> jsval) list"

type_synonym row = "(string \<times> jsval) list"

text \<open>
  The conversions of the ECMAScript runtime that the code relies on are parameters:
  \<open>parseDate s\<close> is \<open>new Date(s)\<close> for a string, \<open>numToStr\<close> is \<open>String\<close> on a number,
  \<open>strToNum\<close> is \<open>Number\<close> on a string, \<open>None\<close> when the result is not finite,
  \<open>isoString\<close> is \<open>toISOString\<close> on a valid date, and \<open>encodeURIComponent\<close> is itself.
\<close>

record runtime =
  parseDate :: "string \<Rightarrow> jsdate"
  numToStr :: "real \<Rightarrow> string"
  strToNum :: "string \<Rightarrow> real option"
  isoString :: "instant \<Rightarrow> string"
  encodeURIComponent :: "string \<Rightarrow> string"

text \<open>\<open>r[k]\<close> on an object, and on any value.\<close>

definition getProp :: "row \<Rightarrow> string \<Rightarrow> jsval" where
  "getProp r k = (case map_of r k of None \<Rightarrow> JUndefined | Some v \<Rightarrow> v)"

fun propOf :: "jsval \<Rightarrow> string \<Rightarrow> jsval" where
  "propOf (JObj r) k = getProp r k"
| "propOf v k = JUndefined"

fun nullish :: "jsval \<Rightarrow> bool" where
  "nullish JUndefined = True"
| "nullish JNull = True"
| "nullish v = False"

fun truthy :: "jsval \<Rightarrow> bool" where
  "truthy JUndefined = False"
| "truthy JNull = False"
| "truthy (JBool b) = b"
| "truthy (JNum n) = (n \<noteq> 0)"
| "truthy (JStr s) = (s \<noteq> [])"
| "truthy (JArr xs) = True"
| "truthy (JObj r) = True"

text \<open>\<open>a ?? b\<close>, \<open>a || b\<close> and \<open>a && b\<close>.\<close>

definition nullishOr :: "jsval \<Rightarrow> jsval \<Rightarrow> jsval" where
  "nullishOr a b = (if nullish a then b else a)"

definition orElse :: "jsval \<Rightarrow> jsval \<Rightarrow> jsval" where
  "orElse a b = (if truthy a then a else b)"

definition andAlso :: "jsval \<Rightarrow> jsval \<Rightarrow> jsval" where
  "andAlso a b = (if truthy a then b else a)"

text \<open>The first value of a chain \<open>r.k1 ?? r.k2 ?? ...\<close>, \<open>undefined\<close> or \<open>null\<close> at its end.\<close>

fun firstDefined :: "jsval list \<Rightarrow> jsval" where
  "firstDefined [] = JUndefined"
| "firstDefined [v] = v"
| "firstDefined (v # vs) = (if nullish v then firstDefined vs else v)"

text \<open>
  \<open>String(v)\<close>. An array is the comma-separated strings of its elements, with
  \<open>null\<close> and \<open>undefined\<close> elements empty.
\<close>

fun joinWith :: "string \<Rightarrow> string list \<Rightarrow> string" where
  "joinWith sep [] = []"
| "joinWith sep [s] = s"
| "joinWith sep (s # ss) = s @ sep @ joinWith sep ss"

fun jsString :: "runtime \<Rightarrow> jsval \<Rightarrow> string" where
  "jsString rt JUndefined = ''undefined''"
| "jsString rt JNull = ''null''"
| "jsString rt (JBool b) = (if b then ''true'' else ''false'')"
| "jsString rt (JNum n) = numToStr rt n"
| "jsString rt (JStr s) = s"
| "jsString rt (JArr xs) = joinWith '','' (map (\<lambda>x. if nullish x then [] else jsString rt x) xs)"
| "jsString rt (JObj r) = ''[object Object]''"

text \<open>\<open>Number(v)\<close>, \<open>None\<close> when the result is not finite.\<close>

fun toNumber :: "runtime \<Rightarrow> jsval \<Rightarrow> real option" where
  "toNumber rt JUndefined = None"
| "toNumber rt JNull = Some 0"
| "toNumber rt (JBool b) = Some (if b then 1 else 0)"
| "toNumber rt (JNum n) = Some n"
| "toNumber rt (JStr s) = strToNum rt s"
| "toNumber rt (JArr xs) = strToNum rt (jsString rt (JArr xs))"
| "toNumber rt (JObj r) = None"

text \<open>
  \<open>new Date(v)\<close>. A number is a time value, truncated to an integer; any other value
  goes through its primitive, for an array or an object its string.
\<close>

fun newDate :: "runtime \<Rightarrow> jsval \<Rightarrow> jsdate" where
  "newDate rt JUndefined = InvalidDate"
| "newDate rt JNull = Date 0"
| "newDate rt (JBool b) = Date (if b then 1 else 0)"
| "newDate rt (JNum n) = (if \<bar>n\<bar> \<le> 8640000000000000 then Date (if n < 0 then - \<lfloor>- n\<rfloor> else \<lfloor>n\<rfloor>) else InvalidDate)"
| "newDate rt (JStr s) = parseDate rt s"
| "newDate rt (JArr xs) = parseDate rt (jsString rt (JArr xs))"
| "newDate rt (JObj r) = parseDate rt (jsString rt (JObj r))"

subsection \<open>Strings\<close>

definition isSpace :: "char \<Rightarrow> bool" where
  "isSpace c \<longleftrightarrow> c \<in> set [CHR 0x09, CHR 0x0A, CHR 0x0B, CHR 0x0C, CHR 0x0D, CHR 0x20, CHR 0xA0]"

definition trim :: "string \<Rightarrow> string" where
  "trim s = rev (dropWhile isSpace (rev (dropWhile isSpace s)))"

text \<open>
  Lower case within Latin-1: the letters at 65 to 90 and at 192 to 222 (without the
  multiplication sign at 215) move up by 32, which sets bit 5 of the code.
\<close>

definition lowerChar :: "char \<Rightarrow> char" where
  "lowerChar c =
     (let n = (of_char c :: nat)
      in if (65 \<le> n \<and> n \<le> 90) \<or> (192 \<le> n \<and> n \<le> 222 \<and> n \<noteq> 215)
         then (case c of Char b0 b1 b2 b3 b4 b5 b6 b7 \<Rightarrow> Char b0 b1 b2 b3 b4 True b6 b7)
         else c)"

definition toLowerCase :: "string \<Rightarrow> string" where
  "toLowerCase s = map lowerChar s"

fun startsWith :: "string \<Rightarrow> string \<Rightarrow> bool" where
  "startsWith s [] = True"
| "startsWith [] (c # cs) = False"
| "startsWith (x # xs) (c # cs) = (x = c \<and> startsWith xs cs)"

fun includesStr :: "string \<Rightarrow> string \<Rightarrow> bool" where
  "includesStr [] t = (t = [])"
| "includesStr (x # xs) t = (startsWith (x # xs) t \<or> includesStr xs t)"

section \<open>Record normalisation (server.js)\<close>

definition statusCandidates :: "string list" where
  "statusCandidates =
     [''status_description'', ''status'', ''Status'', ''occupancy'', ''occupancy_status'',
      ''occupancystatus'', ''parkingstatus'', ''bay_status'', ''baystatus'', ''vehicle_present'',
      ''vehiclepresent'', ''present'', ''presence'', ''is_occupied'', ''isoccupied'', ''is_free'',
      ''isfree'', ''available'', ''availability'', ''occupied'']"

text \<open>\<open>candidates.find(v => v !== undefined && v !== null)\<close>.\<close>

definition statusValue :: "row \<Rightarrow> jsval" where
  "statusValue r =
     (case find (\<lambda>v. \<not> nullish v) (map (getProp r) statusCandidates) of
        None \<Rightarrow> JUndefined | Some v \<Rightarrow> v)"

definition freeWords :: "string list" where
  "freeWords = [''vacant'', ''unoccupied'', ''free'', ''available'', ''clear'', ''unocc'', ''empty'',
                ''not present'', ''no'', ''0'']"

definition occupiedWords :: "string list" where
  "occupiedWords = [''occupied'', ''present'', ''busy'', ''full'', ''yes'', ''1'', ''true'']"

text \<open>The tri-state \<open>availability\<close>: \<open>Some True\<close> free, \<open>Some False\<close> occupied, \<open>None\<close> unknown.\<close>

definition stringAvailability :: "string \<Rightarrow> bool option" where
  "stringAvailability v =
     (let s = toLowerCase (trim v)
      in if s \<in> set freeWords then Some True
         else if s \<in> set occupiedWords then Some False
         else if includesStr s ''unoccupied'' \<or> includesStr s ''vacant'' \<or> includesStr s ''available''
           then Some True
         else if includesStr s ''occupied'' \<or> includesStr s ''present'' then Some False
         else None)"

fun inferAvailability :: "jsval \<Rightarrow> bool option" where
  "inferAvailability (JStr v) = stringAvailability v"
| "inferAvailability (JBool b) = Some (\<not> b)"
| "inferAvailability (JNum n) = (if n = 0 then Some True else if n = 1 then Some False else None)"
| "inferAvailability v = None"

text \<open>
  The record written by \<open>mapSensorRecordToParking\<close>, without the fields \<open>id\<close>, \<open>name\<close>,
  \<open>price\<close> and \<open>updated_at\<close>, which do not depend on the status columns.
\<close>

record parking =
  pk_lat :: "real option"
  pk_lng :: "real option"
  pk_capacity :: int
  pk_available_spots :: "int option"
  pk_raw_status :: jsval

definition mapSensorRecordToParking :: "runtime \<Rightarrow> row \<Rightarrow> parking" where
  "mapSensorRecordToParking rt r =
     (let lat = toNumber rt (firstDefined
                  [getProp r ''lat'', getProp r ''latitude'',
                   andAlso (getProp r ''location'') (propOf (getProp r ''location'') ''lat''),
                   andAlso (getProp r ''geo_point_2d'') (propOf (getProp r ''geo_point_2d'') ''lat'')]);
          lon = toNumber rt (firstDefined
                  [getProp r ''lng'', getProp r ''lon'', getProp r ''longitude'',
                   andAlso (getProp r ''location'') (propOf (getProp r ''location'') ''lon''),
                   andAlso (getProp r ''geo_point_2d'') (propOf (getProp r ''geo_point_2d'') ''lon'')]);
          val = statusValue r;
          availability = inferAvailability val;
          available_spots = (case availability of
                               Some True \<Rightarrow> Some 1 | Some False \<Rightarrow> Some 0 | None \<Rightarrow> None)
      in \<lparr>pk_lat = lat, pk_lng = lon, pk_capacity = 1, pk_available_spots = available_spots,
          pk_raw_status = val\<rparr>)"

text \<open>A runtime for the worked examples; none of them reaches a conversion.\<close>

definition demoRuntime :: runtime where
  "demoRuntime = \<lparr>parseDate = (\<lambda>s. InvalidDate), numToStr = (\<lambda>n. []), strToNum = (\<lambda>s. None),
                   isoString = (\<lambda>t. []), encodeURIComponent = (\<lambda>s. s)\<rparr>"

section \<open>The upstream client (lib/opendatasoft.js)\<close>

text \<open>
  A request is what \<open>buildUrl(datasetId, params)\<close> puts into the URL: the dataset and
  the parameters that are neither \<open>undefined\<close>, \<open>null\<close> nor the empty string. The
  parameters keep their values (the URL holds their strings); \<open>limit\<close> and \<open>offset\<close>,
  numbers wherever the code sets them, are fields of their own, \<open>None\<close> when absent.
\<close>

record request =
  rq_dataset :: string
  rq_params :: "(string \<times> jsval) list"
  rq_limit :: "real option"
  rq_offset :: "real option"

definition buildUrl :: "string \<Rightarrow> (string \<times> jsval) list \<Rightarrow> real option \<Rightarrow> real option \<Rightarrow> request" where
  "buildUrl datasetId params limit offset =
     \<lparr>rq_dataset = datasetId,
      rq_params = filter (\<lambda>(k, v). \<not> (nullish v \<or> v = JStr [])) params,
      rq_limit = limit, rq_offset = offset\<rparr>"

text \<open>
  The upstream service is any function from the requests sent so far and the current
  request to a response: an error (a timeout, a transport failure, a status other than
  2xx, which \<open>axios.get\<close> throws) or the rows of \<open>resp.data.results\<close>. A body that is not
  an array of row objects is not modelled. Every function that calls \<open>axios.get\<close> takes
  the list of requests sent so far and returns it extended.
\<close>

type_synonym response = "error + row list"
type_synonym upstream = "request list \<Rightarrow> request \<Rightarrow> response"

definition LIVE_DATASET_ID :: string where
  "LIVE_DATASET_ID = ''on-street-parking-bay-sensors''"

text \<open>
  The coordinate normalisation applied to every fetched row (\<open>_normCoord\<close>, and the same
  code inline in \<open>fetchLiveSensors\<close>): \<open>r.lat = r.lat ?? r.location.lat\<close>, and so on.
\<close>

definition liftCoord :: "string \<Rightarrow> string \<Rightarrow> row \<Rightarrow> row" where
  "liftCoord outer k r =
     (case getProp r outer of
        JObj inner \<Rightarrow>
          if getProp inner k \<noteq> JUndefined
          then AList.update k (nullishOr (getProp r k) (getProp inner k)) r else r
      | _ \<Rightarrow> r)"

definition normCoord :: "row \<Rightarrow> row" where
  "normCoord r =
     liftCoord ''geo_point_2d'' ''lon'' (liftCoord ''geo_point_2d'' ''lat''
       (liftCoord ''location'' ''lon'' (liftCoord ''location'' ''lat'' r)))"

record liveArgs =
  la_lat :: "real option"
  la_lng :: "real option"
  la_radiusMeters :: "real option"
  la_bbox :: "(real \<times> real \<times> real \<times> real) option"
  la_limit :: "real option"

text \<open>\<open>`${lat},${lng},${Math.max(1, Math.floor(radiusMeters))}`\<close>.\<close>

definition geofilter :: "runtime \<Rightarrow> real \<Rightarrow> real \<Rightarrow> real \<Rightarrow> jsval" where
  "geofilter rt lat lng radiusMeters =
     JStr (numToStr rt lat @ '','' @ numToStr rt lng @ '','' @
           numToStr rt (max 1 (of_int \<lfloor>radiusMeters\<rfloor>)))"

definition liveBase :: "runtime \<Rightarrow> liveArgs \<Rightarrow> (string \<times> jsval) list" where
  "liveBase rt a =
     (''order_by'', JStr ''lastupdated DESC'') #
     (case la_bbox a of
        Some (minLon, minLat, maxLon, maxLat) \<Rightarrow>
          (let n = numToStr rt;
               poly = n minLon @ '' '' @ n minLat @ '','' @ n maxLon @ '' '' @ n minLat @ '','' @
                      n maxLon @ '' '' @ n maxLat @ '','' @ n minLon @ '' '' @ n maxLat @ '','' @
                      n minLon @ '' '' @ n minLat
           in [(''where'', JStr (''within(poly(\"location\", polygon'' @ [CHR 0x27] @ ''((('' @ poly
                                 @ '')))'' @ [CHR 0x27] @ ''))''))])
      | None \<Rightarrow>
          (case (la_lat a, la_lng a, la_radiusMeters a) of
             (Some lat, Some lng, Some rad) \<Rightarrow> [(''geofilter.distance'', geofilter rt lat lng rad)]
           | _ \<Rightarrow> []))"

text \<open>
  \<open>desired = Math.max(1, Math.min(Number(limit) || 100, 5000))\<close>; \<open>None\<close> is a limit
  that is missing or not a number.
\<close>

definition desiredCount :: "real option \<Rightarrow> real" where
  "desiredCount limit =
     max 1 (min (case limit of None \<Rightarrow> 100 | Some l \<Rightarrow> if l = 0 then 100 else l) 5000)"

text \<open>\<open>pageSize = Math.min(PAGE_MAX, desired - results.length)\<close> and the request for a page.\<close>

definition pageSizeOf :: "real \<Rightarrow> row list \<Rightarrow> real" where
  "pageSizeOf desired results = min 100 (desired - real (length results))"

definition liveRequest :: "(string \<times> jsval) list \<Rightarrow> real \<Rightarrow> nat \<Rightarrow> request" where
  "liveRequest base pageSize offset =
     buildUrl LIVE_DATASET_ID base (Some pageSize) (Some (real offset))"

function liveLoop :: "upstream \<Rightarrow> (string \<times> jsval) list \<Rightarrow> real \<Rightarrow> row list \<Rightarrow> nat \<Rightarrow> request list
                      \<Rightarrow> (error + row list) \<times> request list" where
  "liveLoop up base desired results offset sent =
     (if real (length results) < desired then
        (let rq = liveRequest base (pageSizeOf desired results) offset
         in case up sent rq of
              Inl e \<Rightarrow> (Inl e, sent @ [rq])
            | Inr chunk \<Rightarrow>
                if chunk = [] then (Inr results, sent @ [rq])
                else if real (length chunk) < pageSizeOf desired results
                  then (Inr (results @ chunk), sent @ [rq])
                else liveLoop up base desired (results @ chunk) (offset + length chunk) (sent @ [rq]))
      else (Inr results, sent))"
  by pat_completeness auto
termination
proof (relation "measure (\<lambda>(up, base, desired, results, offset, sent). nat \<lceil>desired - real (length results)\<rceil>)")
  show "wf (measure (\<lambda>(up, base, desired, results, offset, sent). nat \<lceil>desired - real (length results)\<rceil>))"
    by simp
next
  fix up :: upstream and base desired and results :: "row list" and offset :: nat and sent rq
    and chunk :: "row list"
  assume lt: "real (length results) < desired" and ne: "chunk \<noteq> []"
  have "1 \<le> real (length chunk)" using ne by (cases chunk) auto
  then have "\<lceil>desired - real (length (results @ chunk))\<rceil> \<le> \<lceil>desired - real (length results) - 1\<rceil>"
    by (intro ceiling_mono) simp
  moreover have "0 < \<lceil>desired - real (length results)\<rceil>" using lt by simp
  ultimately show "((up, base, desired, results @ chunk, offset + length chunk, sent @ [rq]),
                    (up, base, desired, results, offset, sent))
                   \<in> measure (\<lambda>(up, base, desired, results, offset, sent). nat \<lceil>desired - real (length results)\<rceil>)"
    by simp
qed

declare liveLoop.simps [simp del]

definition fetchLiveSensors :: "runtime \<Rightarrow> upstream \<Rightarrow> liveArgs \<Rightarrow> request list
                                \<Rightarrow> (error + row list) \<times> request list" where
  "fetchLiveSensors rt up a sent =
     (case liveLoop up (liveBase rt a) (desiredCount (la_limit a)) [] 0 sent of
        (Inl e, sent') \<Rightarrow> (Inl e, sent')
      | (Inr results, sent') \<Rightarrow> (Inr (map normCoord results), sent'))"

text \<open>
  The paging rule in the words of the specification, as a predicate on the requests
  \<open>new\<close> sent after \<open>sent\<close> when \<open>n\<close> rows are collected: a request is sent exactly when
  fewer than \<open>desired\<close> rows are collected and no page so far was an error or shorter than
  requested, and it asks for \<open>min 100 (desired - n)\<close> rows.
\<close>

fun pagingTrace :: "upstream \<Rightarrow> real \<Rightarrow> nat \<Rightarrow> request list \<Rightarrow> request list \<Rightarrow> bool" where
  "pagingTrace up desired n sent [] = (\<not> real n < desired)"
| "pagingTrace up desired n sent (rq # rqs) =
     (real n < desired \<and> rq_limit rq = Some (min 100 (desired - real n)) \<and>
      (case up sent rq of
         Inl e \<Rightarrow> rqs = []
       | Inr chunk \<Rightarrow>
           if real (length chunk) < min 100 (desired - real n) then rqs = []
           else pagingTrace up desired (n + length chunk) (sent @ [rq]) rqs))"

text \<open>An upstream that never sends more rows than a request asks for.\<close>

definition honest :: "upstream \<Rightarrow> bool" where
  "honest up \<longleftrightarrow>
     (\<forall>sent rq rows n. up sent rq = Inr rows \<and> rq_limit rq = Some n \<longrightarrow> real (length rows) \<le> n)"

text \<open>
  Two upstreams for the worked examples. \<open>pagedUpstream\<close> serves three bays and honours
  \<open>limit\<close> and \<open>offset\<close>; \<open>greedyUpstream\<close> sends all three whatever the request asks for.
\<close>

definition demoBays :: "row list" where
  "demoBays = [[(''kerbsideid'', JNum 1)], [(''kerbsideid'', JNum 2)], [(''kerbsideid'', JNum 3)]]"

definition pagedUpstream :: upstream where
  "pagedUpstream sent rq =
     (case (rq_limit rq, rq_offset rq) of
        (Some l, Some off) \<Rightarrow>
          if l < 0 then Inl TransportError
          else Inr (take (nat \<lfloor>l\<rfloor>) (drop (nat \<lfloor>off\<rfloor>) demoBays))
      | _ \<Rightarrow> Inl TransportError)"

definition greedyUpstream :: upstream where
  "greedyUpstream sent rq = Inr demoBays"

definition limitArgs :: "real \<Rightarrow> liveArgs" where
  "limitArgs l = \<lparr>la_lat = None, la_lng = None, la_radiusMeters = None, la_bbox = None,
                   la_limit = Some l\<rparr>"

definition firstPage :: request where
  "firstPage = \<lparr>rq_dataset = ''on-street-parking-bay-sensors'',
                 rq_params = [(''order_by'', JStr ''lastupdated DESC'')],
                 rq_limit = Some 2, rq_offset = Some 0\<rparr>"

section \<open>Historical aggregation, tier A (lib/opendatasoft.js)\<close>

definition ARRIVAL_FIELDS :: "string list" where
  "ARRIVAL_FIELDS =
     [''arrival_time'', ''arrivaltime'', ''arrivaldatetime'', ''arrival'', ''arrival_date_time'',
      ''arrival_time_utc'', ''arrival_datetime'', ''arrival_datetime_utc'', ''arrival_date_time_utc'',
      ''arrival_dt'', ''arrive_time'', ''arrived_time'']"

definition DEPARTURE_FIELDS :: "string list" where
  "DEPARTURE_FIELDS =
     [''departure_time'', ''departuretime'', ''departuredatetime'', ''departure'', ''departure_date_time'',
      ''departure_time_utc'', ''departure_datetime'', ''departure_datetime_utc'',
      ''departure_date_time_utc'', ''departure_dt'', ''depart_time'', ''left_time'']"

definition BAY_FIELDS :: "string list" where
  "BAY_FIELDS = [''bay_id'', ''bayid'', ''kerbsideid'', ''marker_id'', ''device_id'', ''sensor_id'', ''asset_id'']"

text \<open>The \<open>value\<close> of \<open>_pickField(row, names)\<close>: the first field that is not \<open>undefined\<close>.\<close>

fun pickField :: "row \<Rightarrow> string list \<Rightarrow> jsval" where
  "pickField r [] = JUndefined"
| "pickField r (n # ns) = (if getProp r n \<noteq> JUndefined then getProp r n else pickField r ns)"

record hourlyBucket =
  hb_ts :: instant
  hb_free :: int
  hb_occ :: int
  hb_total :: int

text \<open>
  The \<open>while\<close> loop over the hours of one event. The \<open>Map\<close> of buckets is an association
  list from the hour (the ISO string of the source) to the \<open>occ\<close> count of its bucket.
\<close>

definition bumpHour :: "instant \<Rightarrow> (instant \<times> nat) list \<Rightarrow> (instant \<times> nat) list" where
  "bumpHour key buckets =
     AList.update key (Suc (case map_of buckets key of None \<Rightarrow> 0 | Some n \<Rightarrow> n)) buckets"

function hourWalk :: "instant \<Rightarrow> instant \<Rightarrow> (instant \<times> nat) list \<Rightarrow> (instant \<times> nat) list" where
  "hourWalk h hEnd buckets =
     (if h \<le> hEnd then hourWalk (h + 3600 * 1000) hEnd (bumpHour h buckets) else buckets)"
  by pat_completeness auto
termination
  by (relation "measure (\<lambda>(h, hEnd, buckets). nat (hEnd + 1 - h))") auto

declare hourWalk.simps [simp del]

text \<open>
  The body of the loop over the rows. \<open>start\<close> and \<open>end\<close> are \<open>new Date(startISO)\<close> and
  \<open>new Date(endISO)\<close>; when one of them is invalid, \<open>t0\<close> or \<open>t1\<close> is NaN and the \<open>while\<close>
  loop does not run. Since \<open>arrRaw\<close> or \<open>depRaw\<close> is truthy where \<open>dep\<close> is computed,
  \<open>depRaw || arrRaw || arr\<close> is \<open>depRaw || arrRaw\<close>.
\<close>

definition addEvent :: "runtime \<Rightarrow> jsdate \<Rightarrow> jsdate \<Rightarrow> row \<Rightarrow> string list \<times> (instant \<times> nat) list
                        \<Rightarrow> string list \<times> (instant \<times> nat) list" where
  "addEvent rt start end r acc =
     (let (capacitySet, buckets) = acc;
          bay = jsString rt (nullishOr (pickField r BAY_FIELDS) (JStr []));
          arrRaw = pickField r ARRIVAL_FIELDS;
          depRaw = pickField r DEPARTURE_FIELDS
      in if \<not> truthy arrRaw \<and> \<not> truthy depRaw then acc
         else case (newDate rt (orElse arrRaw depRaw), newDate rt (orElse depRaw arrRaw)) of
           (Date arr, Date dep) \<Rightarrow>
             (let buckets' =
                    (case (start, end) of
                       (Date s, Date e) \<Rightarrow>
                         (let t0 = max arr s; t1 = min dep e;
                              (t0', t1') = (if t1 < t0 then (t1, t0) else (t0, t1))
                          in hourWalk (floorHour t0') (floorHour t1') buckets)
                     | _ \<Rightarrow> buckets)
              in (if bay \<noteq> [] then List.insert bay capacitySet else capacitySet, buckets'))
         | _ \<Rightarrow> acc)"

text \<open>
  \<open>_aggregateEventsToHourly(rows, { startISO, endISO })\<close>. The buckets are sorted by
  their ISO hour strings, which is the order of the hours.
\<close>

definition aggregateEventsToHourly :: "runtime \<Rightarrow> row list \<Rightarrow> jsval \<Rightarrow> jsval \<Rightarrow> int \<times> hourlyBucket list" where
  "aggregateEventsToHourly rt rows startISO endISO =
     (let start = newDate rt startISO;
          end = newDate rt endISO;
          (capacitySet, buckets) = fold (addEvent rt start end) rows ([], []);
          capacity = int (length capacitySet)
      in (capacity,
          map (\<lambda>(key, n). let occ = min (int n) capacity
                           in \<lparr>hb_ts = key, hb_free = max 0 (capacity - occ), hb_occ = occ,
                               hb_total = capacity\<rparr>)
              (sort_key fst buckets)))"

subsection \<open>A runtime that reads ISO dates\<close>

text \<open>
  A \<open>parseDate\<close> for the worked examples: the UTC date-time strings
  \<open>YYYY-MM-DDTHH:mmZ\<close> of ECMAScript, with the days counted by the civil calendar.
\<close>

definition digitAt :: "string \<Rightarrow> nat \<Rightarrow> int option" where
  "digitAt s i =
     (let n = (of_char (s ! i) :: nat) in if 48 \<le> n \<and> n \<le> 57 then Some (int n - 48) else None)"

fun numberAt :: "string \<Rightarrow> nat \<Rightarrow> nat \<Rightarrow> int option" where
  "numberAt s i 0 = Some 0"
| "numberAt s i (Suc k) =
     (case (numberAt s i k, digitAt s (i + k)) of
        (Some hi, Some d) \<Rightarrow> Some (hi * 10 + d)
      | _ \<Rightarrow> None)"

definition daysFromCivil :: "int \<Rightarrow> int \<Rightarrow> int \<Rightarrow> int" where
  "daysFromCivil y m d =
     (let y' = (if m \<le> 2 then y - 1 else y);
          era = y' div 400;
          yoe = y' - era * 400;
          doy = (153 * (if m > 2 then m - 3 else m + 9) + 2) div 5 + d - 1;
          doe = yoe * 365 + yoe div 4 - yoe div 100 + doy
      in era * 146097 + doe - 719468)"

definition daysInMonth :: "int \<Rightarrow> int \<Rightarrow> int" where
  "daysInMonth y m =
     (if m = 2 then (if y mod 4 = 0 \<and> (y mod 100 \<noteq> 0 \<or> y mod 400 = 0) then 29 else 28)
      else if m = 4 \<or> m = 6 \<or> m = 9 \<or> m = 11 then 30 else 31)"

definition parseIsoMinute :: "string \<Rightarrow> jsdate" where
  "parseIsoMinute s =
     (if length s = 17 \<and> s ! 4 = CHR ''-'' \<and> s ! 7 = CHR ''-'' \<and> s ! 10 = CHR ''T''
         \<and> s ! 13 = CHR '':'' \<and> s ! 16 = CHR ''Z''
      then (case (numberAt s 0 4, numberAt s 5 2, numberAt s 8 2, numberAt s 11 2, numberAt s 14 2) of
              (Some y, Some m, Some d, Some h, Some mi) \<Rightarrow>
                if 1 \<le> m \<and> m \<le> 12 \<and> 1 \<le> d \<and> d \<le> daysInMonth y m \<and> h \<le> 23 \<and> mi \<le> 59
                then Date (((daysFromCivil y m d * 24 + h) * 60 + mi) * 60000)
                else InvalidDate
            | _ \<Rightarrow> InvalidDate)
      else InvalidDate)"

definition isoRuntime :: runtime where
  "isoRuntime = \<lparr>parseDate = parseIsoMinute, numToStr = (\<lambda>n. []), strToNum = (\<lambda>s. None),
                  isoString = (\<lambda>t. []), encodeURIComponent = (\<lambda>s. s)\<rparr>"

text \<open>The row and the window of the example, and the same row with the bay under \<open>bay_id\<close>.\<close>

definition specRow :: row where
  "specRow = [(''bay'', JStr ''A''), (''arrival'', JStr ''2024-01-01T10:00Z''),
              (''departure'', JStr ''2024-01-01T12:30Z'')]"

definition bayIdRow :: row where
  "bayIdRow = [(''bay_id'', JStr ''A''), (''arrival'', JStr ''2024-01-01T10:00Z''),
               (''departure'', JStr ''2024-01-01T12:30Z'')]"

definition hourBucket :: "instant \<Rightarrow> int \<Rightarrow> int \<Rightarrow> hourlyBucket" where
  "hourBucket t occ cap = \<lparr>hb_ts = t, hb_free = max 0 (cap - occ), hb_occ = occ, hb_total = cap\<rparr>"

section \<open>Historical aggregation: fetching the annual events (lib/opendatasoft.js)\<close>

definition ANNUAL_DEFAULTS :: "string list" where
  "ANNUAL_DEFAULTS =
     [''on-street-car-parking-sensor-data-2019'', ''on-street-car-parking-sensor-data-2020-jan-may'']"

text \<open>
  The origin of a radius query. Each component is \<open>None\<close> when it is not a finite
  number.
\<close>

record origin =
  o_lat :: "real option"
  o_lng :: "real option"
  o_radiusMeters :: "real option"

definition geoParams :: "runtime \<Rightarrow> origin \<Rightarrow> (string \<times> jsval) list" where
  "geoParams rt g =
     (case (o_lat g, o_lng g, o_radiusMeters g) of
        (Some lat, Some lng, Some rad) \<Rightarrow> [(''geofilter.distance'', geofilter rt lat lng rad)]
      | _ \<Rightarrow> [])"

text \<open>
  \<open>_detectTimeFields\<close>: one sample row, and the first arrival and departure candidates
  among its keys. Every failure is caught.
\<close>

definition detectTimeFields :: "upstream \<Rightarrow> string \<Rightarrow> request list
                                \<Rightarrow> (string option \<times> string option) \<times> request list" where
  "detectTimeFields up datasetId sent =
     (let rq = buildUrl datasetId [] (Some 1) None
      in case up sent rq of
           Inl e \<Rightarrow> ((None, None), sent @ [rq])
         | Inr rows \<Rightarrow>
             (let keys = (case rows of [] \<Rightarrow> [] | r # rest \<Rightarrow> map fst r)
              in ((find (\<lambda>n. n \<in> set keys) ARRIVAL_FIELDS,
                   find (\<lambda>n. n \<in> set keys) DEPARTURE_FIELDS), sent @ [rq])))"

definition rangeRequest :: "runtime \<Rightarrow> string \<Rightarrow> string \<Rightarrow> jsval \<Rightarrow> jsval \<Rightarrow> origin \<Rightarrow> real \<Rightarrow> nat
                            \<Rightarrow> request" where
  "rangeRequest rt datasetId fieldName startISO endISO g pageSize offset =
     buildUrl datasetId
       ([(''where'', JStr (fieldName @ '' >= \"'' @ jsString rt startISO @ ''\" AND '' @
                           fieldName @ '' <= \"'' @ jsString rt endISO @ ''\"'')),
         (''order_by'', JStr (fieldName @ '' ASC''))] @ geoParams rt g)
       (Some pageSize) (Some (real offset))"

text \<open>The paging loop of \<open>_fetchAnnualRangeOnce\<close>; \<open>mk\<close> builds the request of a page.\<close>

function rangeLoop :: "upstream \<Rightarrow> (real \<Rightarrow> nat \<Rightarrow> request) \<Rightarrow> real \<Rightarrow> row list \<Rightarrow> nat \<Rightarrow> request list
                       \<Rightarrow> (error + row list) \<times> request list" where
  "rangeLoop up mk limit results offset sent =
     (if real (length results) < limit then
        (let rq = mk (pageSizeOf limit results) offset
         in case up sent rq of
              Inl e \<Rightarrow> (Inl e, sent @ [rq])
            | Inr chunk \<Rightarrow>
                if chunk = [] then (Inr results, sent @ [rq])
                else if real (length chunk) < pageSizeOf limit results
                  then (Inr (results @ map normCoord chunk), sent @ [rq])
                else rangeLoop up mk limit (results @ map normCoord chunk) (offset + length chunk)
                       (sent @ [rq]))
      else (Inr results, sent))"
  by pat_completeness auto
termination
proof (relation "measure (\<lambda>(up, mk, limit, results, offset, sent). nat \<lceil>limit - real (length results)\<rceil>)")
  show "wf (measure (\<lambda>(up, mk, limit, results, offset, sent). nat \<lceil>limit - real (length results)\<rceil>))"
    by simp
next
  fix up :: upstream and mk :: "real \<Rightarrow> nat \<Rightarrow> request" and limit and results :: "row list"
    and offset :: nat and sent rq and chunk :: "row list"
  assume lt: "real (length results) < limit" and ne: "chunk \<noteq> []"
  have "1 \<le> real (length chunk)" using ne by (cases chunk) auto
  then have "\<lceil>limit - real (length (results @ map normCoord chunk))\<rceil> \<le> \<lceil>limit - real (length results) - 1\<rceil>"
    by (intro ceiling_mono) simp
  moreover have "0 < \<lceil>limit - real (length results)\<rceil>" using lt by simp
  ultimately show "((up, mk, limit, results @ map normCoord chunk, offset + length chunk, sent @ [rq]),
                    (up, mk, limit, results, offset, sent))
                   \<in> measure (\<lambda>(up, mk, limit, results, offset, sent). nat \<lceil>limit - real (length results)\<rceil>)"
    by simp
qed

declare rangeLoop.simps [simp del]

definition fetchAnnualRangeOnce :: "runtime \<Rightarrow> upstream \<Rightarrow> string \<Rightarrow> string \<Rightarrow> jsval \<Rightarrow> jsval \<Rightarrow> origin
                                    \<Rightarrow> real \<Rightarrow> request list \<Rightarrow> (error + row list) \<times> request list" where
  "fetchAnnualRangeOnce rt up datasetId fieldName startISO endISO g limit sent =
     rangeLoop up (rangeRequest rt datasetId fieldName startISO endISO g) limit [] 0 sent"

text \<open>
  The loop over the candidate fields: the first field whose fetch returns rows wins; a
  fetch that throws is caught and the next field is tried.
\<close>

fun tryFields :: "runtime \<Rightarrow> upstream \<Rightarrow> string \<Rightarrow> string list \<Rightarrow> jsval \<Rightarrow> jsval \<Rightarrow> origin \<Rightarrow> real
                  \<Rightarrow> request list \<Rightarrow> row list \<times> request list" where
  "tryFields rt up ds [] startISO endISO g limit sent = ([], sent)"
| "tryFields rt up ds (f # fs) startISO endISO g limit sent =
     (case fetchAnnualRangeOnce rt up ds f startISO endISO g limit sent of
        (Inl e, sent') \<Rightarrow> tryFields rt up ds fs startISO endISO g limit sent'
      | (Inr part, sent') \<Rightarrow>
          if part \<noteq> [] then (part, sent')
          else tryFields rt up ds fs startISO endISO g limit sent')"

definition dedupeKey :: "runtime \<Rightarrow> string \<Rightarrow> row \<Rightarrow> string" where
  "dedupeKey rt ds r =
     (let bay = nullishOr (pickField r BAY_FIELDS) (JStr []);
          arr = nullishOr (pickField r ARRIVAL_FIELDS) (JStr []);
          dep = nullishOr (pickField r DEPARTURE_FIELDS) (JStr [])
      in if truthy (getProp r ''recordid'')
         then ds @ ''|'' @ jsString rt (getProp r ''recordid'')
         else ds @ ''|'' @ jsString rt bay @ ''|'' @ jsString rt arr @ ''|'' @ jsString rt dep)"

fun dedupe :: "runtime \<Rightarrow> string \<Rightarrow> row list \<Rightarrow> string list \<times> row list \<Rightarrow> string list \<times> row list" where
  "dedupe rt ds [] acc = acc"
| "dedupe rt ds (r # rs) (seen, out) =
     (if dedupeKey rt ds r \<in> set seen then dedupe rt ds rs (seen, out)
      else dedupe rt ds rs (dedupeKey rt ds r # seen, out @ [r]))"

text \<open>The loop of \<open>_fetchAnnualEventsOverlaps\<close> over the datasets.\<close>

fun overlapsLoop :: "runtime \<Rightarrow> upstream \<Rightarrow> string list \<Rightarrow> jsval \<Rightarrow> jsval \<Rightarrow> origin \<Rightarrow> real
                     \<Rightarrow> string list \<times> row list \<Rightarrow> request list \<Rightarrow> row list \<times> request list" where
  "overlapsLoop rt up [] startISO endISO g limit (seen, out) sent = (out, sent)"
| "overlapsLoop rt up (ds # dss) startISO endISO g limit (seen, out) sent =
     (let ((arrival, departure), sent1) = detectTimeFields up ds sent;
          arrivalCandidates = (case arrival of Some f \<Rightarrow> [f] | None \<Rightarrow> ARRIVAL_FIELDS);
          departureCandidates = (case departure of Some f \<Rightarrow> [f] | None \<Rightarrow> DEPARTURE_FIELDS);
          (rowsA, sent2) = tryFields rt up ds arrivalCandidates startISO endISO g limit sent1;
          (rowsD, sent3) = tryFields rt up ds departureCandidates startISO endISO g limit sent2
      in overlapsLoop rt up dss startISO endISO g limit
           (dedupe rt ds (rowsA @ rowsD) (seen, out)) sent3)"

definition fetchAnnualEventsOverlaps :: "runtime \<Rightarrow> upstream \<Rightarrow> string list \<Rightarrow> jsval \<Rightarrow> jsval \<Rightarrow> origin
                                         \<Rightarrow> real \<Rightarrow> request list \<Rightarrow> row list \<times> request list" where
  "fetchAnnualEventsOverlaps rt up datasetIds startISO endISO g limitPerDataset sent =
     overlapsLoop rt up datasetIds startISO endISO g limitPerDataset ([], []) sent"

section \<open>Historical aggregation: the pedestrian proxy and the synthetic curve\<close>

definition PEDESTRIAN_COUNTS_DS :: string where
  "PEDESTRIAN_COUNTS_DS = ''pedestrian-counting-system-monthly-counts-per-hour''"

definition PEDESTRIAN_LOC_DS :: string where
  "PEDESTRIAN_LOC_DS = ''pedestrian-counting-system-sensor-locations''"

text \<open>Step 1: the capacity is the number of distinct ids of the live sensors nearby.\<close>

definition liveIds :: "runtime \<Rightarrow> row list \<Rightarrow> string list" where
  "liveIds rt live =
     fold (\<lambda>r ids.
             let v = firstDefined (map (getProp r)
                       [''kerbsideid'', ''bay_id'', ''bayid'', ''marker_id'', ''sensor'', ''asset_id'',
                        ''device_id'', ''id''])
             in if nullish v then ids else List.insert (jsString rt v) ids) live []"

definition estimateCapacity :: "runtime \<Rightarrow> upstream \<Rightarrow> origin \<Rightarrow> request list \<Rightarrow> int \<times> request list" where
  "estimateCapacity rt up g sent =
     (case fetchLiveSensors rt up
             \<lparr>la_lat = o_lat g, la_lng = o_lng g, la_radiusMeters = o_radiusMeters g,
              la_bbox = None, la_limit = Some 3000\<rparr> sent of
        (Inl e, sent') \<Rightarrow> (0, sent')
      | (Inr live, sent') \<Rightarrow> (int (length (liveIds rt live)), sent'))"

text \<open>
  Step 2: the pedestrian sensors, nearest first. \<open>`${lat},${lng},${radiusMeters}`\<close> is
  built without a finiteness check; a component that is not a finite number is
  written \<open>NaN\<close> here.
\<close>

definition numOrNaN :: "runtime \<Rightarrow> real option \<Rightarrow> string" where
  "numOrNaN rt v = (case v of Some x \<Rightarrow> numToStr rt x | None \<Rightarrow> ''NaN'')"

definition locRequest :: "runtime \<Rightarrow> origin \<Rightarrow> request" where
  "locRequest rt g =
     buildUrl PEDESTRIAN_LOC_DS
       [(''geofilter.distance'',
         JStr (numOrNaN rt (o_lat g) @ '','' @ numOrNaN rt (o_lng g) @ '','' @
               numOrNaN rt (o_radiusMeters g)))]
       (Some 100) None"

record pedLoc =
  pl_id :: jsval
  pl_lat :: real
  pl_lng :: real

text \<open>\<open>Array.isArray(p) ? p[i] : undefined\<close>.\<close>

definition arrayAt :: "jsval \<Rightarrow> nat \<Rightarrow> jsval" where
  "arrayAt v i = (case v of JArr xs \<Rightarrow> if i < length xs then xs ! i else JUndefined | _ \<Rightarrow> JUndefined)"

text \<open>
  One element of \<open>locs\<close>, \<open>None\<close> when the filter on finite coordinates drops it. The
  \<open>name\<close> field is read nowhere and is left out.
\<close>

definition toPedLoc :: "runtime \<Rightarrow> row \<Rightarrow> pedLoc option" where
  "toPedLoc rt r =
     (let p = orElse (getProp r ''location'') (orElse (getProp r ''geo_point_2d'') (JObj []));
          lat0 = toNumber rt (nullishOr (propOf p ''lat'') (arrayAt p 1));
          lng0 = toNumber rt (nullishOr (propOf p ''lon'') (nullishOr (propOf p ''lng'') (arrayAt p 0)))
      in case (lat0, lng0) of
           (Some la, Some lo) \<Rightarrow>
             Some \<lparr>pl_id = firstDefined (map (getProp r) [''location_id'', ''sensor_id'', ''id'', ''recordid'']),
                   pl_lat = la, pl_lng = lo\<rparr>
         | _ \<Rightarrow> None)"

definition pedDist :: "real \<Rightarrow> real \<Rightarrow> real \<Rightarrow> real \<Rightarrow> real" where
  "pedDist lat1 lng1 lat2 lng2 =
     (let R = 6371000;
          dLat = toRad (lat2 - lat1);
          dLng = toRad (lng2 - lng1);
          la = toRad lat1;
          lb = toRad lat2;
          x = (sin (dLat / 2))\<^sup>2 + cos la * cos lb * (sin (dLng / 2))\<^sup>2
      in 2 * R * arcsin (min 1 (sqrt x)))"

text \<open>
  \<open>locs.sort\<close> by distance from the origin. With an origin that is not finite every
  comparison is NaN, which the sort reads as equal: the order is kept.
\<close>

definition sortLocs :: "origin \<Rightarrow> pedLoc list \<Rightarrow> pedLoc list" where
  "sortLocs g locs =
     (case (o_lat g, o_lng g) of
        (Some lat, Some lng) \<Rightarrow> sort_key (\<lambda>p. pedDist lat lng (pl_lat p) (pl_lng p)) locs
      | _ \<Rightarrow> locs)"

text \<open>
  The hourly series over the window, one bucket from \<open>start\<close> every hour up to \<open>end\<close>,
  with the free ratio \<open>ratio h\<close> at hour of day \<open>h\<close>. An invalid \<open>start\<close> or \<open>end\<close> makes
  the loop condition false at once.
\<close>

function synthLoop :: "(nat \<Rightarrow> real) \<Rightarrow> int \<Rightarrow> instant \<Rightarrow> instant \<Rightarrow> hourlyBucket list \<Rightarrow> hourlyBucket list" where
  "synthLoop ratio cap t end series =
     (if t \<le> end then
        synthLoop ratio cap (t + 3600000) end
          (series @ [let h = getUTCHours t;
                         free = max 0 (min cap (js_round (of_int cap * ratio h)))
                     in \<lparr>hb_ts = t, hb_free = free, hb_occ = cap - free, hb_total = cap\<rparr>])
      else series)"
  by pat_completeness auto
termination
  by (relation "measure (\<lambda>(ratio, cap, t, end, series). nat (end + 1 - t))") auto

declare synthLoop.simps [simp del]

definition synthSeries :: "(nat \<Rightarrow> real) \<Rightarrow> int \<Rightarrow> jsdate \<Rightarrow> jsdate \<Rightarrow> hourlyBucket list" where
  "synthSeries ratio cap start end =
     (case (start, end) of (Date s, Date e) \<Rightarrow> synthLoop ratio cap s e [] | _ \<Rightarrow> [])"

text \<open>The synthetic diurnal curve (tier C).\<close>

definition diurnalShape :: "nat \<Rightarrow> real" where
  "diurnalShape h =
     (if 7 \<le> h \<and> h \<le> 9 then 15 / 100
      else if 10 \<le> h \<and> h \<le> 15 then 4 / 10
      else if 16 \<le> h \<and> h \<le> 19 then 2 / 10
      else 7 / 10)"

text \<open>Step 3: the probe of the counts dataset for its time and count columns.\<close>

definition probeFields :: "upstream \<Rightarrow> request list \<Rightarrow> (string option \<times> string option) \<times> request list" where
  "probeFields up sent =
     (let rq = buildUrl PEDESTRIAN_COUNTS_DS [] (Some 1) None
      in case up sent rq of
           Inl e \<Rightarrow> ((None, None), sent @ [rq])
         | Inr sample \<Rightarrow>
             (let keys = (case sample of [] \<Rightarrow> [] | r # rest \<Rightarrow> map fst r)
              in ((find (\<lambda>k. k \<in> set keys)
                     [''sensing_date'', ''date_time'', ''datetime'', ''timestamp'', ''date''],
                   find (\<lambda>k. k \<in> set keys)
                     [''pedestriancount'', ''pedestrian_count'', ''hourly_count'', ''hourlycount'',
                      ''count'', ''total'']), sent @ [rq])))"

definition idsClause :: "runtime \<Rightarrow> pedLoc list \<Rightarrow> string" where
  "idsClause rt picked =
     joinWith '' OR '' (map (\<lambda>p. ''location_id='' @ encodeURIComponent rt (jsString rt (pl_id p))) picked)"

text \<open>
  The \<open>where\<close> clause. With a time column, \<open>new Date(startISO).toISOString()\<close> throws a
  RangeError on an invalid date, outside every \<open>try\<close>.
\<close>

definition pedWhere :: "runtime \<Rightarrow> string option \<Rightarrow> jsdate \<Rightarrow> jsdate \<Rightarrow> pedLoc list \<Rightarrow> error + string" where
  "pedWhere rt timeField start end picked =
     (case timeField of
        None \<Rightarrow> Inr (''('' @ idsClause rt picked @ '')'')
      | Some tf \<Rightarrow>
          (case (start, end) of
             (Date s, Date e) \<Rightarrow>
               Inr (tf @ '' >= \"'' @ isoString rt s @ ''\" AND '' @ tf @ '' <= \"'' @ isoString rt e
                    @ ''\"'' @ '' AND '' @ ''('' @ idsClause rt picked @ '')'')
           | _ \<Rightarrow> Inl RangeError))"

definition pedRequest :: "string \<Rightarrow> nat \<Rightarrow> request" where
  "pedRequest wh offset =
     buildUrl PEDESTRIAN_COUNTS_DS [(''where'', JStr wh)] (Some 100) (Some (real offset))"

text \<open>
  One paging loop over the counts: the rows collected, and the error that ended the
  loop if a request failed.
\<close>

function pedPages :: "upstream \<Rightarrow> string \<Rightarrow> nat \<Rightarrow> row list \<Rightarrow> request list
                      \<Rightarrow> (row list \<times> error option) \<times> request list" where
  "pedPages up wh offset rows sent =
     (let rq = pedRequest wh offset
      in case up sent rq of
           Inl e \<Rightarrow> ((rows, Some e), sent @ [rq])
         | Inr chunk \<Rightarrow>
             if chunk = [] then ((rows, None), sent @ [rq])
             else if length chunk < 100 then ((rows @ chunk, None), sent @ [rq])
             else if offset + length chunk \<ge> 100000 then ((rows @ chunk, None), sent @ [rq])
             else pedPages up wh (offset + length chunk) (rows @ chunk) (sent @ [rq]))"
  by pat_completeness auto
termination
  by (relation "measure (\<lambda>(up, wh, offset, rows, sent). 100000 - offset)") auto

declare pedPages.simps [simp del]

text \<open>
  The counts of the picked sensors. A failed request of the first loop is caught: with
  a time column the loop is run again without the time filter, outside every \<open>try\<close>, and
  the time column is forgotten; without one the rows collected so far are kept.
\<close>

definition pedRows :: "upstream \<Rightarrow> string \<Rightarrow> string \<Rightarrow> string option \<Rightarrow> request list
                       \<Rightarrow> (error + row list \<times> string option) \<times> request list" where
  "pedRows up wh whIds timeField sent =
     (case pedPages up wh 0 [] sent of
        ((rows, None), sent') \<Rightarrow> (Inr (rows, timeField), sent')
      | ((rows, Some e), sent') \<Rightarrow>
          (case timeField of
             None \<Rightarrow> (Inr (rows, None), sent')
           | Some tf \<Rightarrow>
               (case pedPages up whIds 0 [] sent' of
                  ((rows2, None), sent'') \<Rightarrow> (Inr (rows @ rows2, None), sent'')
                | ((rows2, Some e2), sent'') \<Rightarrow> (Inl e2, sent''))))"

text \<open>Step 4: the sums and counts per hour of day.\<close>

definition rowHourValue :: "runtime \<Rightarrow> string option \<Rightarrow> row \<Rightarrow> jsval" where
  "rowHourValue rt timeField r =
     (let hVal = firstDefined [getProp r ''hourday'', getProp r ''hour'', getProp r ''hod'']
      in if hVal = JUndefined then
           (case timeField of
              None \<Rightarrow> hVal
            | Some tf \<Rightarrow>
                if truthy (getProp r tf) then
                  (case newDate rt (getProp r tf) of
                     Date t \<Rightarrow> JNum (real (getUTCHours t))
                   | InvalidDate \<Rightarrow> hVal)
                else hVal)
         else hVal)"

definition rowCount :: "runtime \<Rightarrow> string option \<Rightarrow> row \<Rightarrow> real option" where
  "rowCount rt countField r =
     toNumber rt (firstDefined
       ((case countField of None \<Rightarrow> JUndefined | Some cf \<Rightarrow> getProp r cf) #
        map (getProp r) [''pedestriancount'', ''pedestrian_count'', ''hourly_count'', ''hourlycount'',
                         ''count'', ''total'']))"

text \<open>
  \<open>hod[h].sum += c\<close>: for an hour \<open>h\<close> in range that is not an integer, \<open>hod[h]\<close> is
  \<open>undefined\<close> and the statement throws a TypeError.
\<close>

fun hodLoop :: "runtime \<Rightarrow> string option \<Rightarrow> string option \<Rightarrow> row list \<Rightarrow> (real \<times> nat) list
                \<Rightarrow> error + (real \<times> nat) list" where
  "hodLoop rt timeField countField [] hod = Inr hod"
| "hodLoop rt timeField countField (r # rs) hod =
     (case (toNumber rt (rowHourValue rt timeField r), rowCount rt countField r) of
        (Some h, Some c) \<Rightarrow>
          if h < 0 \<or> h > 23 then hodLoop rt timeField countField rs hod
          else if h \<noteq> of_int \<lfloor>h\<rfloor> then Inl TypeError
          else hodLoop rt timeField countField rs
                 (hod[nat \<lfloor>h\<rfloor> := (fst (hod ! nat \<lfloor>h\<rfloor>) + c, Suc (snd (hod ! nat \<lfloor>h\<rfloor>)))])
      | _ \<Rightarrow> hodLoop rt timeField countField rs hod)"

definition freeRatioByH :: "(real \<times> nat) list \<Rightarrow> real list" where
  "freeRatioByH hod =
     (let means = map (\<lambda>(s, c). if c \<noteq> 0 then s / real c else 0) hod;
          maxMean = fold max means 1
      in map (\<lambda>m. min 1 (max (1 / 10) (1 - (9 / 10) * (m / maxMean)))) means)"

text \<open>\<open>_proxyAnnualByPedestrian\<close>. The request for the sensor locations is outside every \<open>try\<close>.\<close>

definition proxyAnnualByPedestrian :: "runtime \<Rightarrow> upstream \<Rightarrow> origin \<Rightarrow> jsval \<Rightarrow> jsval \<Rightarrow> request list
                                       \<Rightarrow> (error + int \<times> hourlyBucket list) \<times> request list" where
  "proxyAnnualByPedestrian rt up g startISO endISO sent =
     (let (capacity, sent1) = estimateCapacity rt up g sent;
          locRq = locRequest rt g
      in case up sent1 locRq of
           Inl e \<Rightarrow> (Inl e, sent1 @ [locRq])
         | Inr locRows \<Rightarrow>
             (let sent2 = sent1 @ [locRq];
                  picked = take 8 (sortLocs g (List.map_filter (toPedLoc rt) locRows));
                  cap = (if capacity > 0 then capacity else 60);
                  start = newDate rt startISO;
                  end = newDate rt endISO
              in if picked = [] then (Inr (cap, synthSeries diurnalShape cap start end), sent2)
                 else
                   (let ((timeField, countField), sent3) = probeFields up sent2
                    in case pedWhere rt timeField start end picked of
                         Inl e \<Rightarrow> (Inl e, sent3)
                       | Inr wh \<Rightarrow>
                           (case pedRows up wh (''('' @ idsClause rt picked @ '')'') timeField sent3 of
                              (Inl e, sent4) \<Rightarrow> (Inl e, sent4)
                            | (Inr (rows, timeField'), sent4) \<Rightarrow>
                                (case hodLoop rt timeField' countField rows (replicate 24 (0, 0)) of
                                   Inl e \<Rightarrow> (Inl e, sent4)
                                 | Inr hod \<Rightarrow>
                                     (Inr (cap, synthSeries (\<lambda>h. nthOr (freeRatioByH hod) h (1 / 2))
                                                  cap start end), sent4))))))"

section \<open>Historical aggregation: the three tiers\<close>

record annualArgs =
  aa_origin :: origin
  aa_startISO :: jsval
  aa_endISO :: jsval
  aa_datasetIds :: "string list"
  aa_limitPerDataset :: real

text \<open>
  \<open>fetchAnnualHourlyByRadius\<close>. Tier A runs inside a \<open>try\<close>; in the model it has no
  failure of its own, since every request of \<open>_fetchAnnualEventsOverlaps\<close> is caught
  where it is made. The call of \<open>_proxyAnnualByPedestrian\<close> is outside every \<open>try\<close>.
\<close>

definition fetchAnnualHourlyByRadius :: "runtime \<Rightarrow> upstream \<Rightarrow> annualArgs \<Rightarrow> request list
                                         \<Rightarrow> (error + int \<times> hourlyBucket list) \<times> request list" where
  "fetchAnnualHourlyByRadius rt up a sent =
     (let datasetIds = (if aa_datasetIds a \<noteq> [] then aa_datasetIds a else ANNUAL_DEFAULTS);
          (rows, sent1) = fetchAnnualEventsOverlaps rt up datasetIds (aa_startISO a) (aa_endISO a)
                            (aa_origin a) (aa_limitPerDataset a) sent;
          (capacity, series) = aggregateEventsToHourly rt rows (aa_startISO a) (aa_endISO a)
      in if series \<noteq> [] \<and> capacity > 0 then (Inr (capacity, series), sent1)
         else case proxyAnnualByPedestrian rt up (aa_origin a) (aa_startISO a) (aa_endISO a) sent1 of
                (Inl e, sent2) \<Rightarrow> (Inl e, sent2)
              | (Inr (pcap, pseries), sent2) \<Rightarrow>
                  (let cap = (if pcap > 0 then pcap else 60);
                       ser = (if pseries \<noteq> [] then pseries
                              else synthSeries diurnalShape cap (newDate rt (aa_startISO a))
                                     (newDate rt (aa_endISO a)))
                   in (Inr (cap, ser), sent2)))"

text \<open>Two upstreams: one where every request fails, one where every request returns no rows.\<close>

definition downUpstream :: upstream where
  "downUpstream sent rq = Inl TransportError"

definition emptyUpstream :: upstream where
  "emptyUpstream sent rq = Inr []"

section \<open>Properties of the store\<close>

lemma pruneOld_keys:
  "(k, b) \<in> set (pruneOld now buckets days) \<Longrightarrow> now - days * 24 * 3600 * 1000 \<le> k"
  by (auto simp: pruneOld_def Let_def)

lemma map_of_update_same: "map_of (AList.update k v al) k = Some v"
  by (simp add: update_conv')

lemma map_of_pruneOld:
  "map_of (pruneOld now buckets days) k
     = (if k < now - days * 24 * 3600 * 1000 then None else map_of buckets k)"
  unfolding pruneOld_def Let_def by (induction buckets) auto

text \<open>
  C8. After a call of \<open>recordAreaSample\<close> that writes (a non-empty area id and a valid
  date, of instant \<open>t\<close>), the area has an entry in the store and every bucket kept for it
  has an hour key no older than 30 days before the time of the write. The sample is
  merged into the bucket of its hour: when that hour is within the 30 days, its
  bucket is the former bucket of the hour, or a fresh one, with the sample added.
  Such a call always returns.
\<close>

theorem recordAreaSample_retention:
  assumes "areaId \<noteq> []" and "(case sm_ts s of None \<Rightarrow> Date now | Some d \<Rightarrow> d) = Date t"
  shows "\<exists>st' bs. recordAreaSample now st areaId s = Inr st'
           \<and> map_of st' areaId = Some bs
           \<and> (\<forall>(k, b) \<in> set bs. now - retentionMs \<le> k)
           \<and> (now - retentionMs \<le> floorHour t \<longrightarrow>
                map_of bs (floorHour t)
                  = Some (mergeSample
                            (bucketAt (case map_of st areaId of None \<Rightarrow> [] | Some old \<Rightarrow> old)
                               (floorHour t)) s))"
proof -
  define old where "old = (case map_of st areaId of None \<Rightarrow> [] | Some old \<Rightarrow> old)"
  define b where "b = mergeSample (bucketAt old (floorHour t)) s"
  define bs where "bs = pruneOld now (AList.update (floorHour t) b old) 30"
  have run: "recordAreaSample now st areaId s = Inr (AList.update areaId bs st)"
    using assms by (simp add: recordAreaSample_def Let_def old_def b_def bs_def)
  have kept: "\<forall>(k, b) \<in> set bs. now - retentionMs \<le> k"
    using pruneOld_keys [of _ _ now _ 30] by (auto simp: bs_def retentionMs_def)
  have merged: "map_of bs (floorHour t) = Some b" if "now - retentionMs \<le> floorHour t"
    using that by (simp add: bs_def map_of_pruneOld map_of_update_same retentionMs_def)
  show ?thesis
    using run kept merged by (auto simp: map_of_update_same b_def old_def)
qed

theorem recordAreaSample_retention_witness:
  "''8928308280fffff'' \<noteq> []
   \<and> (case sm_ts \<lparr>sm_free = 3, sm_occ = 2, sm_total = 5, sm_ts = None\<rparr> of
         None \<Rightarrow> Date 4000000000 | Some d \<Rightarrow> d) = Date 4000000000
   \<and> 4000000000 - retentionMs \<le> floorHour 4000000000
   \<and> (\<exists>st' bs. recordAreaSample 4000000000
          [(''8928308280fffff'', [(0, \<lparr>sb_ts = 0, sb_free = 1, sb_occ = 1, sb_total = 2, sb_n = 1\<rparr>)])]
          ''8928308280fffff'' \<lparr>sm_free = 3, sm_occ = 2, sm_total = 5, sm_ts = None\<rparr> = Inr st'
        \<and> map_of st' ''8928308280fffff'' = Some bs
        \<and> (\<forall>(k, b) \<in> set bs. 4000000000 - retentionMs \<le> k)
        \<and> map_of bs (floorHour 4000000000)
            = Some \<lparr>sb_ts = 3999600000, sb_free = 3, sb_occ = 2, sb_total = 5, sb_n = 1\<rparr>)"
proof -
  have w: "4000000000 - retentionMs \<le> floorHour 4000000000"
    by (simp add: retentionMs_def floorHour_def msPerHour_def)
  have f: "floorHour 4000000000 = 3999600000"
    by (simp add: floorHour_def msPerHour_def)
  show ?thesis
    using recordAreaSample_retention
      [where areaId = "''8928308280fffff''"
         and s = "\<lparr>sm_free = 3, sm_occ = 2, sm_total = 5, sm_ts = None\<rparr>"
         and now = 4000000000 and t = 4000000000
         and st = "[(''8928308280fffff'', [(0, \<lparr>sb_ts = 0, sb_free = 1, sb_occ = 1, sb_total = 2, sb_n = 1\<rparr>)])]"]
      w
    by (simp add: f bucketAt_def mergeSample_def)
qed

section \<open>Properties of the forecaster\<close>

lemma clamp01_range: "0 \<le> clamp01 x" "clamp01 x \<le> 1"
  by (simp_all add: clamp01_def)

lemma clamp01_mono: "x \<le> y \<Longrightarrow> clamp01 x \<le> clamp01 y"
  by (auto simp: clamp01_def max_def min_def)

lemma js_round_mono: "x \<le> y \<Longrightarrow> js_round x \<le> js_round y"
  by (simp add: js_round_def floor_mono)

lemma js_round_of_int: "js_round (of_int n) = n"
  unfolding js_round_def by linarith

lemma getUTCHours_lt: "getUTCHours t < 24"
  by (simp add: getUTCHours_def msPerHour_def nat_less_iff)

lemma quantile_Some:
  assumes "a \<noteq> []" "0 \<le> q" "q \<le> 1"
  shows "\<exists>v. quantile a q = Some v"
proof -
  let ?n = "length a"
  let ?pos = "(real ?n - 1) * q"
  have n: "1 \<le> real ?n" using assms(1) by (cases a) auto
  have p0: "0 \<le> ?pos" using n assms(2) by simp
  have p1: "?pos \<le> real ?n - 1" using n assms(3) by (simp add: mult_left_le)
  have "0 \<le> \<lfloor>?pos\<rfloor>" using p0 by simp
  moreover have "\<lfloor>?pos\<rfloor> < int ?n" using p1 by linarith
  ultimately show ?thesis
    using assms(1) by (auto simp: quantile_def Let_def)
qed

lemma quantile_mono:
  assumes srt: "sorted a" and ne: "a \<noteq> []"
    and q: "0 \<le> q1" "q1 \<le> q2" "q2 \<le> 1"
    and v1: "quantile a q1 = Some v1" and v2: "quantile a q2 = Some v2"
  shows "v1 \<le> v2"
proof -
  let ?n = "length a"
  define p1 where "p1 = (real ?n - 1) * q1"
  define p2 where "p2 = (real ?n - 1) * q2"
  define b1 where "b1 = nat \<lfloor>p1\<rfloor>"
  define b2 where "b2 = nat \<lfloor>p2\<rfloor>"
  define r1 where "r1 = p1 - real b1"
  define r2 where "r2 = p2 - real b2"
  have n: "1 \<le> real ?n" using ne by (cases a) auto
  have p10: "0 \<le> p1" using n q by (simp add: p1_def)
  have p12: "p1 \<le> p2" using n q by (simp add: p1_def p2_def mult_left_mono)
  have p2n: "p2 \<le> real ?n - 1" using n q by (simp add: p2_def mult_left_le)
  have f1: "0 \<le> \<lfloor>p1\<rfloor>" using p10 by simp
  have f2: "0 \<le> \<lfloor>p2\<rfloor>" using p10 p12 by simp
  have b12: "b1 \<le> b2" using p12 by (simp add: b1_def b2_def floor_mono nat_mono)
  have b2n: "b2 < ?n" using p2n f2 unfolding b2_def by linarith
  have rb1: "real b1 = of_int \<lfloor>p1\<rfloor>" using f1 by (simp add: b1_def)
  have rb2: "real b2 = of_int \<lfloor>p2\<rfloor>" using f2 by (simp add: b2_def)
  have r1: "0 \<le> r1" "r1 \<le> 1" unfolding r1_def rb1 by linarith+
  have r2: "0 \<le> r2" "r2 \<le> 1" unfolding r2_def rb2 by linarith+
  have e1: "v1 = (if b1 + 1 < ?n then a ! b1 + r1 * (a ! (b1 + 1) - a ! b1) else a ! b1)"
    using v1 ne f1 b12 b2n
    by (auto simp: quantile_def Let_def p1_def b1_def r1_def split: if_splits)
  have e2: "v2 = (if b2 + 1 < ?n then a ! b2 + r2 * (a ! (b2 + 1) - a ! b2) else a ! b2)"
    using v2 ne f2 b2n
    by (auto simp: quantile_def Let_def p2_def b2_def r2_def split: if_splits)
  have up: "\<And>i j. i \<le> j \<Longrightarrow> j < ?n \<Longrightarrow> a ! i \<le> a ! j"
    using srt by (simp add: sorted_nth_mono)
  have lo2: "a ! b2 \<le> v2"
  proof (cases "b2 + 1 < ?n")
    case True
    then have "0 \<le> r2 * (a ! (b2 + 1) - a ! b2)"
      using r2 up [of b2 "b2 + 1"] by simp
    then show ?thesis using True e2 by simp
  next
    case False
    then show ?thesis using e2 by simp
  qed
  show ?thesis
  proof (cases "b1 = b2")
    case True
    then have rr: "r1 \<le> r2" using p12 by (simp add: r1_def r2_def)
    show ?thesis
    proof (cases "b2 + 1 < ?n")
      case lt: True
      have d: "0 \<le> a ! (b2 + 1) - a ! b2" using up [of b2 "b2 + 1"] lt by simp
      have "r1 * (a ! (b2 + 1) - a ! b2) \<le> r2 * (a ! (b2 + 1) - a ! b2)"
        using rr d by (rule mult_right_mono)
      then show ?thesis using e1 e2 True lt by simp
    next
      case False
      then show ?thesis using e1 e2 True by simp
    qed
  next
    case False
    then have lt: "b1 + 1 \<le> b2" using b12 by simp
    then have in1: "b1 + 1 < ?n" using b2n by simp
    have d: "0 \<le> a ! (b1 + 1) - a ! b1" using up [of b1 "b1 + 1"] in1 by simp
    have "r1 * (a ! (b1 + 1) - a ! b1) \<le> 1 * (a ! (b1 + 1) - a ! b1)"
      using r1(2) d by (rule mult_right_mono)
    then have "v1 \<le> a ! (b1 + 1)" using e1 in1 by simp
    also have "\<dots> \<le> a ! b2" using up [OF lt b2n] .
    also have "\<dots> \<le> v2" by (rule lo2)
    finally show ?thesis .
  qed
qed

lemma hodQ_order: "hodQ (1 / 10) (1 / 4) b \<le> hodQ (9 / 10) (9 / 10) b"
proof (cases "sort b = []")
  case True
  then show ?thesis by (simp add: hodQ_def)
next
  case False
  obtain v1 where v1: "quantile (sort b) (1 / 10) = Some v1"
    using quantile_Some [OF False, of "1 / 10"] by auto
  obtain v2 where v2: "quantile (sort b) (9 / 10) = Some v2"
    using quantile_Some [OF False, of "9 / 10"] by auto
  have "v1 \<le> v2"
    using quantile_mono [OF _ False _ _ _ v1 v2] by simp
  then show ?thesis
    using False v1 v2 by (simp add: hodQ_def clamp01_mono)
qed

lemma length_pushRows: "length (fst (pushRows rows (bs, ts))) = length bs"
  by (induction rows "(bs, ts)" arbitrary: bs ts rule: pushRows.induct)
     (auto split: option.splits)

lemma profile_lengths:
  "length (q10 (buildHodProfile rows)) = 24" "length (q90 (buildHodProfile rows)) = 24"
  "length (mean (buildHodProfile rows)) = 24"
  using length_pushRows [of rows "replicate 24 []" "[]"]
  by (auto simp: buildHodProfile_def split: prod.splits)

lemma profile_order:
  assumes "h < 24"
  shows "q10 (buildHodProfile rows) ! h \<le> q90 (buildHodProfile rows) ! h"
proof -
  obtain bs ts where p: "pushRows rows (replicate 24 [], []) = (bs, ts)"
    by (cases "pushRows rows (replicate 24 [], [])")
  have "length bs = 24"
    using length_pushRows [of rows "replicate 24 []" "[]"] p by simp
  then show ?thesis
    using assms p by (simp add: buildHodProfile_def hodQ_order)
qed

lemma scaled_round:
  assumes "0 \<le> B" "0 \<le> f" "f \<le> 1"
  shows "0 \<le> js_round (f * of_int B)" "js_round (f * of_int B) \<le> B"
proof -
  have "0 \<le> f * of_int B" using assms by simp
  then have "js_round (of_int 0) \<le> js_round (f * of_int B)"
    by (intro js_round_mono) simp
  then show "0 \<le> js_round (f * of_int B)" by (simp only: js_round_of_int)
  have "f * of_int B \<le> of_int B" using assms by (simp add: mult_left_le_one_le)
  then have "js_round (f * of_int B) \<le> js_round (of_int B)"
    by (rule js_round_mono)
  then show "js_round (f * of_int B) \<le> B" by (simp only: js_round_of_int)
qed

lemma forecastAt_sel:
  "expected_available (forecastAt start B mn lo hi i) =
     js_round (min 1 (max 0 (nthOr mn (getUTCHours (start + int i * 3600 * 1000)) (1 / 2))) * of_int B)"
  "lo80 (forecastAt start B mn lo hi i) =
     max 0 (js_round (min 1 (max 0 (nthOr lo (getUTCHours (start + int i * 3600 * 1000))
       (min 1 (max 0 (nthOr mn (getUTCHours (start + int i * 3600 * 1000)) (1 / 2))) * (8 / 10)))) * of_int B))"
  "hi80 (forecastAt start B mn lo hi i) =
     min B (js_round (min 1 (max 0 (nthOr hi (getUTCHours (start + int i * 3600 * 1000))
       (min 1 (min 1 (max 0 (nthOr mn (getUTCHours (start + int i * 3600 * 1000)) (1 / 2))) * (11 / 10))))) * of_int B))"
  "fp_ts (forecastAt start B mn lo hi i) = start + int i * 3600 * 1000"
  "free_ratio (forecastAt start B mn lo hi i) =
     min 1 (max 0 (nthOr mn (getUTCHours (start + int i * 3600 * 1000)) (1 / 2)))"
  by (simp_all only: forecastAt_def Let_def forecastPoint.select_convs)

lemma nthOr_in: "i < length xs \<Longrightarrow> nthOr xs i d = xs ! i"
  by (simp add: nthOr_def)

lemma forecastAt_bounds:
  assumes B: "0 \<le> B"
    and len: "length lo = 24" "length hi = 24"
    and ord: "lo ! getUTCHours (start + int i * 3600 * 1000)
              \<le> hi ! getUTCHours (start + int i * 3600 * 1000)"
  shows "0 \<le> lo80 (forecastAt start B mn lo hi i)"
    and "lo80 (forecastAt start B mn lo hi i) \<le> hi80 (forecastAt start B mn lo hi i)"
    and "hi80 (forecastAt start B mn lo hi i) \<le> B"
    and "0 \<le> expected_available (forecastAt start B mn lo hi i)"
    and "expected_available (forecastAt start B mn lo hi i) \<le> B"
proof -
  define h where "h = getUTCHours (start + int i * 3600 * 1000)"
  define fr where "fr = min 1 (max 0 (nthOr mn h (1 / 2)))"
  define frLo where "frLo = min 1 (max 0 (lo ! h))"
  define frHi where "frHi = min 1 (max 0 (hi ! h))"
  have h: "h < 24" unfolding h_def by (rule getUTCHours_lt)
  have rng: "0 \<le> fr" "fr \<le> 1" "0 \<le> frLo" "frLo \<le> 1" "0 \<le> frHi" "frHi \<le> 1"
    unfolding fr_def frLo_def frHi_def by simp_all
  have "lo ! h \<le> hi ! h" using ord unfolding h_def .
  then have lh: "frLo \<le> frHi"
    unfolding frLo_def frHi_def by (simp add: min_def max_def)
  have nl: "nthOr lo h dl = lo ! h" for dl using h len by (simp add: nthOr_in)
  have nh: "nthOr hi h dh = hi ! h" for dh using h len by (simp add: nthOr_in)
  have e: "expected_available (forecastAt start B mn lo hi i) = js_round (fr * of_int B)"
    by (simp only: forecastAt_sel h_def [symmetric] fr_def)
  have l: "lo80 (forecastAt start B mn lo hi i) = max 0 (js_round (frLo * of_int B))"
    by (simp only: forecastAt_sel h_def [symmetric] nl frLo_def)
  have u: "hi80 (forecastAt start B mn lo hi i) = min B (js_round (frHi * of_int B))"
    by (simp only: forecastAt_sel h_def [symmetric] nh frHi_def)
  have "frLo * of_int B \<le> frHi * of_int B"
    using lh B by (simp add: mult_right_mono)
  then have m: "js_round (frLo * of_int B) \<le> js_round (frHi * of_int B)"
    by (rule js_round_mono)
  note sl = scaled_round [OF B rng(3,4)] and sh = scaled_round [OF B rng(5,6)]
    and se = scaled_round [OF B rng(1,2)]
  show "0 \<le> lo80 (forecastAt start B mn lo hi i)" unfolding l by simp
  show "lo80 (forecastAt start B mn lo hi i) \<le> hi80 (forecastAt start B mn lo hi i)"
    unfolding l u using m sl sh B by simp
  show "hi80 (forecastAt start B mn lo hi i) \<le> B" unfolding u by simp
  show "0 \<le> expected_available (forecastAt start B mn lo hi i)"
    unfolding e by (rule se(1))
  show "expected_available (forecastAt start B mn lo hi i) \<le> B"
    unfolding e by (rule se(2))
qed

lemma skewRow_hour: "rowHour (skewRow f) = Some 1"
  by (simp add: skewRow_def rowHour_def getUTCHours_def msPerHour_def)

lemma skewRow_ratio: "rowFreeRatio (skewRow 0) = 0" "rowFreeRatio (skewRow 1) = 1"
  by (simp_all add: skewRow_def rowFreeRatio_def)

lemma skewRow_total: "r_total (skewRow f) = 1"
  by (simp add: skewRow_def)

lemma skew_buckets:
  "pushRows skewRows (replicate 24 [], []) =
     ([] # [0, 0, 0, 0, 0, 0, 0, 0, 0, 0, 0, 1] # replicate 22 [], [1, 1, 1, 1, 1, 1, 1, 1, 1, 1, 1, 1])"
  by (simp add: skewRows_def skewRow_hour skewRow_ratio skewRow_total eval_nat_numeral)

lemma skew_mean: "hodMean [0, 0, 0, 0, 0, 0, 0, 0, 0, 0, 0, 1] = 1 / 12"
  by (simp add: hodMean_def clamp01_def)

lemma skew_q10: "hodQ (1 / 10) (1 / 4) [0, 0, 0, 0, 0, 0, 0, 0, 0, 0, 0, 1] = 0"
  by (simp add: hodQ_def quantile_def clamp01_def)

lemma skew_q90: "hodQ (9 / 10) (9 / 10) [0, 0, 0, 0, 0, 0, 0, 0, 0, 0, 0, 1] = 0"
  by (simp add: hodQ_def quantile_def clamp01_def)

lemma skew_profile:
  "mean (buildHodProfile skewRows) ! 1 = 1 / 12"
  "q10 (buildHodProfile skewRows) ! 1 = 0"
  "q90 (buildHodProfile skewRows) ! 1 = 0"
  by (simp_all add: buildHodProfile_def skew_buckets skew_mean skew_q10 skew_q90)

lemma skew_hour: "getUTCHours (floorHour 0 + msPerHour + int 0 * 3600 * 1000) = 1"
  by (simp add: getUTCHours_def floorHour_def msPerHour_def)

lemma skew_forecast: "forecastFromRows 0 1 12 skewRows = [skewPoint]"
proof -
  let ?P = "buildHodProfile skewRows"
  let ?p = "forecastAt (floorHour 0 + msPerHour) 12 (mean ?P) (q10 ?P) (q90 ?P) 0"
  have e: "expected_available ?p = 1"
    by (simp only: forecastAt_sel skew_hour nthOr_in profile_lengths skew_profile)
       (simp add: js_round_def)
  have l: "lo80 ?p = 0"
    by (simp only: forecastAt_sel skew_hour nthOr_in profile_lengths skew_profile)
       (simp add: js_round_def)
  have u: "hi80 ?p = 0"
    by (simp only: forecastAt_sel skew_hour nthOr_in profile_lengths skew_profile)
       (simp add: js_round_def)
  have t: "fp_ts ?p = 3600000"
    by (simp only: forecastAt_sel) (simp add: floorHour_def msPerHour_def)
  have f: "free_ratio ?p = 1 / 12"
    by (simp only: forecastAt_sel skew_hour nthOr_in profile_lengths skew_profile)
  have "?p = skewPoint"
    using e l u t f by (simp add: skewPoint_def forecastPoint.equality)
  then show ?thesis
    by (simp add: forecastFromRows_def forecastNextHoursFromHod_def)
qed

text \<open>
  C2 (amended). For every history, every clock reading, every number of hours and every
  base total \<open>\<ge> 0\<close>, each forecast point has \<open>0 \<le> lo80 \<le> hi80 \<le> total_bays\<close> and
  \<open>0 \<le> expected_available \<le> total_bays\<close>. The expected value is not placed between
  the two quantile bounds: the mean of an hour's free ratios can lie outside the
  interval of its 10th and 90th percentiles.
\<close>
theorem forecast_bounds:
  assumes "0 \<le> baseTotal" and "p \<in> set (forecastFromRows now hours baseTotal rows)"
  shows "0 \<le> lo80 p \<and> lo80 p \<le> hi80 p \<and> hi80 p \<le> baseTotal
         \<and> 0 \<le> expected_available p \<and> expected_available p \<le> baseTotal"
proof -
  let ?P = "buildHodProfile rows"
  obtain i where p: "p = forecastAt (floorHour now + msPerHour) baseTotal (mean ?P) (q10 ?P) (q90 ?P) i"
    using assms(2) by (auto simp: forecastFromRows_def forecastNextHoursFromHod_def Let_def)
  show ?thesis
    unfolding p
    using forecastAt_bounds [OF assms(1) profile_lengths(1,2) profile_order [OF getUTCHours_lt]]
    by blast
qed


theorem forecast_bounds_witness:
  "(0::int) \<le> 12 \<and> skewPoint \<in> set (forecastFromRows 0 1 12 skewRows)
   \<and> 0 \<le> lo80 skewPoint \<and> lo80 skewPoint \<le> hi80 skewPoint \<and> hi80 skewPoint \<le> 12
   \<and> 0 \<le> expected_available skewPoint \<and> expected_available skewPoint \<le> 12"
proof -
  have m: "skewPoint \<in> set (forecastFromRows 0 1 12 skewRows)"
    by (simp only: skew_forecast list.set insertI1)
  show ?thesis
    using forecast_bounds [of 12 skewPoint 0 1 skewRows] m by (simp add: skewPoint_def)
qed

text \<open>
  C2 as stated fails. With twelve buckets in one hour of the day, eleven of them with
  no free bay and one entirely free, the mean free ratio is 1/12 while the 90th
  percentile is 0: for 12 bays the forecast for that hour has
  \<open>expected_available = 1\<close> above \<open>hi80 = 0\<close>.
\<close>

theorem forecast_order_counterexample:
  "forecastFromRows 0 1 12 skewRows =
     [\<lparr>fp_ts = 3600000, expected_available = 1, lo80 = 0, hi80 = 0, free_ratio = 1 / 12\<rparr>]"
  using skew_forecast by (simp add: skewPoint_def)

section \<open>Properties of the rounding to doubles\<close>

lemma ilog2_bounds: "0 < n \<Longrightarrow> 2 ^ ilog2 n \<le> n \<and> n < 2 ^ Suc (ilog2 n)"
proof (induction n rule: ilog2.induct)
  case (1 n)
  show ?case
  proof (cases "n < 2")
    case True
    then show ?thesis using 1(2) by (simp add: ilog2.simps [of n])
  next
    case False
    then have pos: "0 < n div 2" by simp
    have ih: "2 ^ ilog2 (n div 2) \<le> n div 2 \<and> n div 2 < 2 ^ Suc (ilog2 (n div 2))"
      using 1(1) [OF False pos] .
    have e: "ilog2 n = Suc (ilog2 (n div 2))" using False by (simp add: ilog2.simps [of n])
    have "2 * 2 ^ ilog2 (n div 2) \<le> 2 * (n div 2)" using ih by simp
    also have "\<dots> \<le> n" by simp
    finally have lo: "2 ^ ilog2 n \<le> n" by (simp add: e)
    have "n div 2 + 1 \<le> 2 ^ Suc (ilog2 (n div 2))" using ih by simp
    then have "2 * (n div 2) + 2 \<le> 2 * 2 ^ Suc (ilog2 (n div 2))" by simp
    moreover have "n < 2 * (n div 2) + 2" by presburger
    ultimately have hi: "n < 2 ^ Suc (ilog2 n)" by (simp add: e)
    show ?thesis using lo hi by simp
  qed
qed

lemma expo_bounds:
  assumes "x \<noteq> 0"
  shows "2 powi expo x \<le> \<bar>x\<bar>" "\<bar>x\<bar> < 2 powi (expo x + 1)"
proof -
  define a where "a = \<bar>x\<bar>"
  have apos: "0 < a" using assms by (simp add: a_def)
  have "2 powi expo x \<le> a \<and> a < 2 powi (expo x + 1)"
  proof (cases "1 \<le> a")
    case True
    define n where "n = nat \<lfloor>a\<rfloor>"
    have npos: "0 < n" using True by (simp add: n_def)
    have e: "expo x = int (ilog2 n)" using True by (simp add: expo_def a_def n_def)
    have nle: "real n \<le> a" using True by (simp add: n_def)
    have alt: "a < real n + 1" using True by (simp add: n_def)
    from ilog2_bounds [OF npos] have b: "2 ^ ilog2 n \<le> n" "n + 1 \<le> 2 ^ Suc (ilog2 n)" by simp_all
    have "real (2 ^ ilog2 n) \<le> real n" using b(1) by (rule iffD2 [OF of_nat_le_iff])
    then have "(2::real) ^ ilog2 n \<le> real n" by simp
    then have lo: "2 powi expo x \<le> a" unfolding e power_int_of_nat using nle by linarith
    have "real (n + 1) \<le> real (2 ^ Suc (ilog2 n))" using b(2) by (rule iffD2 [OF of_nat_le_iff])
    then have "real n + 1 \<le> 2 ^ Suc (ilog2 n)" by simp
    moreover have "(2::real) powi (expo x + 1) = 2 ^ Suc (ilog2 n)"
      unfolding e by (simp add: power_int_add power_int_of_nat)
    ultimately have hi: "a < 2 powi (expo x + 1)"
      using alt by linarith
    show ?thesis using lo hi by simp
  next
    case False
    then have a1: "a < 1" by simp
    define m where "m = nat \<lceil>1 / a\<rceil>"
    have inv: "1 < 1 / a" using apos a1 by simp
    have m2: "2 \<le> m" using inv by (simp add: m_def) linarith
    have mge: "1 / a \<le> real m" by (simp add: m_def) linarith
    have mlt: "real m - 1 < 1 / a" using inv by (simp add: m_def) linarith
    define k where "k = ilog2 (m - 1)"
    have e: "expo x = - int (Suc k)" using False by (simp add: expo_def a_def m_def k_def)
    have mpos: "0 < m - 1" using m2 by simp
    from ilog2_bounds [OF mpos] have b0: "2 ^ k \<le> m - 1" "m - 1 < 2 ^ Suc k"
      by (simp_all add: k_def)
    have b: "2 ^ k \<le> m - 1" "m \<le> 2 ^ Suc k"
      using b0 m2 by linarith+
    have "real (2 ^ k) \<le> real (m - 1)" using b(1) by (rule iffD2 [OF of_nat_le_iff])
    then have b1: "(2::real) ^ k \<le> real m - 1" using m2 by (simp add: of_nat_diff)
    have "real m \<le> real (2 ^ Suc k)" using b(2) by (rule iffD2 [OF of_nat_le_iff])
    then have b2: "real m \<le> 2 ^ Suc k" by simp
    have "1 / a \<le> 2 ^ Suc k" using mge b2 by linarith
    then have lo: "1 / 2 ^ Suc k \<le> a" using apos by (simp add: field_simps)
    have "(2::real) ^ k < 1 / a" using b1 mlt by linarith
    then have hi: "a < 1 / 2 ^ k" using apos by (simp add: field_simps)
    have p1: "(2::real) powi expo x = 1 / 2 ^ Suc k"
      by (simp add: e power_int_def inverse_eq_divide power_one_over del: power_Suc)
    have p2: "(2::real) powi (expo x + 1) = 1 / 2 ^ k"
      by (simp add: e power_int_def inverse_eq_divide power_one_over)
    show ?thesis using lo hi p1 p2 by simp
  qed
  then show "2 powi expo x \<le> \<bar>x\<bar>" "\<bar>x\<bar> < 2 powi (expo x + 1)" by (simp_all add: a_def)
qed

lemma expo_unique:
  assumes "2 powi e \<le> \<bar>x\<bar>" "\<bar>x\<bar> < 2 powi (e + 1)"
  shows "expo x = e"
proof -
  have "(0::real) < 2 powi e" by (simp add: zero_less_power_int)
  have nz: "x \<noteq> 0"
  proof
    assume "x = 0"
    then have "2 powi e \<le> (0::real)" using assms(1) by simp
    then show False using \<open>(0::real) < 2 powi e\<close> by linarith
  qed
  note b = expo_bounds [OF nz]
  have "(2::real) powi e < 2 powi (expo x + 1)" using assms(1) b(2) by linarith
  then have 1: "e < expo x + 1"
    using power_int_increasing [of "expo x + 1" e "2::real"] by (cases "e < expo x + 1") simp_all
  have "(2::real) powi expo x < 2 powi (e + 1)" using assms(2) b(1) by linarith
  then have 2: "expo x < e + 1"
    using power_int_increasing [of "e + 1" "expo x" "2::real"] by (cases "expo x < e + 1") simp_all
  show ?thesis using 1 2 by simp
qed























lemma f64_eval:
  assumes "2 powi e \<le> \<bar>x\<bar>" "\<bar>x\<bar> < 2 powi (e + 1)" "- 1022 \<le> e"
  shows "f64 x = of_int (roundEven (x / 2 powi (e - 52))) * 2 powi (e - 52)"
  using expo_unique [OF assms(1,2)] assms(3) by (simp add: f64_def ulp_def max_def)




section \<open>Properties of the spatial aggregation\<close>

































section \<open>Properties of the ranking\<close>

lemma truncate_rankOne: "areaCell.truncate (rankOne lat lng by a) = a"
  by (simp add: rankOne_def Let_def areaCell.truncate_def areaCell.extend_def)

lemma truncate_ranked: "map areaCell.truncate (map (rankOne lat lng by) areas) = areas"
  by (induction areas) (simp_all add: truncate_rankOne)

text \<open>
  C10. The result of \<open>rankAreas\<close> is a list of cells extended with the two fields
  \<open>_distance_m\<close> and \<open>_score\<close>; dropping these two fields gives a permutation of the
  input, so each input cell is in the result once, with every field unchanged. The
  result has the length of the input and is in descending order of score.
\<close>

theorem rankAreas_frame:
  "mset (map areaCell.truncate (rankAreas areas lat lng by)) = mset areas
   \<and> length (rankAreas areas lat lng by) = length areas
   \<and> sorted (map (\<lambda>r. - rk_score r) (rankAreas areas lat lng by))"
proof -
  have perm: "mset (rankAreas areas lat lng by) = mset (map (rankOne lat lng by) areas)"
    by (simp add: rankAreas_def)
  have "mset (map areaCell.truncate (rankAreas areas lat lng by))
          = image_mset areaCell.truncate (mset (rankAreas areas lat lng by))"
    by (rule mset_map)
  also have "\<dots> = image_mset areaCell.truncate (mset (map (rankOne lat lng by) areas))"
    by (simp only: perm)
  also have "\<dots> = mset (map areaCell.truncate (map (rankOne lat lng by) areas))"
    by (rule mset_map [symmetric])
  also have "\<dots> = mset areas"
    by (simp only: truncate_ranked)
  finally have "mset (map areaCell.truncate (rankAreas areas lat lng by)) = mset areas" .
  moreover have "length (rankAreas areas lat lng by) = length areas"
    by (simp add: rankAreas_def)
  moreover have "sorted (map (\<lambda>r. - rk_score r) (rankAreas areas lat lng by))"
    by (simp add: rankAreas_def)
  ultimately show ?thesis by blast
qed

section \<open>Properties of the normalisation\<close>

lemma lower_trim_example: "toLowerCase (trim ''UNOCCUPIED '') = ''unoccupied''"
  by (simp add: toLowerCase_def trim_def isSpace_def lowerChar_def)

lemma occupiedWords_clean:
  assumes "s \<in> set occupiedWords"
  shows "\<not> includesStr s ''unoccupied''" "\<not> includesStr s ''vacant''" "\<not> includesStr s ''available''"
  using assms by (auto simp: occupiedWords_def)

lemma stringAvailability_free:
  assumes "includesStr (toLowerCase (trim v)) ''unoccupied''
           \<or> includesStr (toLowerCase (trim v)) ''vacant''
           \<or> includesStr (toLowerCase (trim v)) ''available''"
  shows "stringAvailability v = Some True"
  using assms occupiedWords_clean [of "toLowerCase (trim v)"]
  by (auto simp: stringAvailability_def Let_def)

lemma available_spots_of_status:
  "pk_available_spots (mapSensorRecordToParking rt r) =
     (case inferAvailability (statusValue r) of
        Some True \<Rightarrow> Some 1 | Some False \<Rightarrow> Some 0 | None \<Rightarrow> None)"
  by (simp add: mapSensorRecordToParking_def Let_def)

lemma status_example: "statusValue [(''status'', JStr v)] = JStr v"
  by (simp add: statusValue_def statusCandidates_def getProp_def)

text \<open>
  C7. A row whose \<open>status\<close> column holds \<open>"UNOCCUPIED "\<close> is normalised to
  \<open>available_spots = 1\<close>. The availability of a status string depends only on the string
  trimmed and in lower case, and every status string that, so reduced, contains
  \<open>unoccupied\<close>, \<open>vacant\<close> or \<open>available\<close> is free.
\<close>

theorem status_matching:
  "pk_available_spots (mapSensorRecordToParking rt [(''status'', JStr ''UNOCCUPIED '')]) = Some 1
   \<and> (toLowerCase (trim v) = toLowerCase (trim w)
        \<longrightarrow> stringAvailability v = stringAvailability w)
   \<and> (statusValue r = JStr v
        \<and> (includesStr (toLowerCase (trim v)) ''unoccupied''
             \<or> includesStr (toLowerCase (trim v)) ''vacant''
             \<or> includesStr (toLowerCase (trim v)) ''available'')
        \<longrightarrow> pk_available_spots (mapSensorRecordToParking rt r) = Some 1)"
proof -
  have a: "pk_available_spots (mapSensorRecordToParking rt [(''status'', JStr ''UNOCCUPIED '')]) = Some 1"
    by (simp add: available_spots_of_status status_example stringAvailability_def
        lower_trim_example freeWords_def)
  have b: "stringAvailability v = stringAvailability w"
    if "toLowerCase (trim v) = toLowerCase (trim w)"
    using that by (simp add: stringAvailability_def)
  have c: "pk_available_spots (mapSensorRecordToParking rt r) = Some 1"
    if "statusValue r = JStr v"
      and "includesStr (toLowerCase (trim v)) ''unoccupied''
           \<or> includesStr (toLowerCase (trim v)) ''vacant''
           \<or> includesStr (toLowerCase (trim v)) ''available''"
    using that(1) stringAvailability_free [OF that(2)]
    by (simp add: available_spots_of_status)
  show ?thesis using a b c by blast
qed

lemma vacant_example: "toLowerCase (trim '' Bay is VACANT now'') = ''bay is vacant now''"
  by (simp add: toLowerCase_def trim_def isSpace_def lowerChar_def)

theorem status_matching_witness:
  "statusValue [(''status'', JStr '' Bay is VACANT now'')] = JStr '' Bay is VACANT now''
   \<and> includesStr (toLowerCase (trim '' Bay is VACANT now'')) ''vacant''
   \<and> toLowerCase (trim '' Bay is VACANT now'') = toLowerCase (trim ''bay is vacant now'')
   \<and> stringAvailability '' Bay is VACANT now'' = stringAvailability ''bay is vacant now''
   \<and> pk_available_spots (mapSensorRecordToParking demoRuntime [(''status'', JStr '' Bay is VACANT now'')])
       = Some 1"
proof -
  have l: "toLowerCase (trim ''bay is vacant now'') = ''bay is vacant now''"
    by (simp add: toLowerCase_def trim_def isSpace_def lowerChar_def)
  have i: "includesStr (toLowerCase (trim '' Bay is VACANT now'')) ''vacant''"
    by (simp add: vacant_example)
  show ?thesis
    using status_matching [of demoRuntime "'' Bay is VACANT now''" "''bay is vacant now''"
        "[(''status'', JStr '' Bay is VACANT now'')]"] i l
    by (simp add: status_example vacant_example)
qed

section \<open>Properties of the paging client\<close>

lemma liveLoop_done:
  "\<not> real (length results) < desired \<Longrightarrow>
     liveLoop up base desired results offset sent = (Inr results, sent)"
  by (simp add: liveLoop.simps)

lemma liveLoop_error:
  assumes "real (length results) < desired"
    and "up sent (liveRequest base (pageSizeOf desired results) offset) = Inl e"
  shows "liveLoop up base desired results offset sent
           = (Inl e, sent @ [liveRequest base (pageSizeOf desired results) offset])"
  using assms by (simp add: liveLoop.simps [of up base desired results])

lemma liveLoop_page:
  assumes "real (length results) < desired"
    and "up sent (liveRequest base (pageSizeOf desired results) offset) = Inr chunk"
  shows "liveLoop up base desired results offset sent =
           (if chunk = [] then (Inr results, sent @ [liveRequest base (pageSizeOf desired results) offset])
            else if real (length chunk) < pageSizeOf desired results
              then (Inr (results @ chunk), sent @ [liveRequest base (pageSizeOf desired results) offset])
            else liveLoop up base desired (results @ chunk) (offset + length chunk)
                   (sent @ [liveRequest base (pageSizeOf desired results) offset]))"
  using assms by (simp add: liveLoop.simps [of up base desired results])

lemma liveLoop_bound:
  assumes "honest up" and "liveLoop up base desired results offset sent = (Inr rows, sent')"
  shows "real (length rows) \<le> max desired (real (length results))"
  using assms
proof (induction up base desired results offset sent rule: liveLoop.induct)
  case (1 up base desired results offset sent)
  define rq where "rq = liveRequest base (pageSizeOf desired results) offset"
  show ?case
  proof (cases "real (length results) < desired")
    case False
    then show ?thesis using "1.prems"(2) by (simp add: liveLoop_done)
  next
    case True
    show ?thesis
    proof (cases "up sent rq")
      case (Inl e)
      then show ?thesis
        using "1.prems"(2) liveLoop_error [where up = up and sent = sent, OF True Inl [unfolded rq_def]] by simp
    next
      case (Inr chunk)
      have "rq_limit rq = Some (pageSizeOf desired results)"
        by (simp add: rq_def liveRequest_def buildUrl_def)
      then have fit: "real (length chunk) \<le> pageSizeOf desired results"
        using "1.prems"(1) Inr unfolding honest_def by blast
      note run = liveLoop_page [where up = up and sent = sent, OF True Inr [unfolded rq_def], folded rq_def]
      show ?thesis
      proof (cases "chunk = []")
        case True
        then show ?thesis using run "1.prems"(2) by auto
      next
        case ne: False
        show ?thesis
        proof (cases "real (length chunk) < pageSizeOf desired results")
          case short: True
          then have "rows = results @ chunk" using run ne "1.prems"(2) by simp
          then show ?thesis using short True by (simp add: pageSizeOf_def)
        next
          case full: False
          then have rec: "liveLoop up base desired (results @ chunk) (offset + length chunk) (sent @ [rq]) = (Inr rows, sent')"
            using run ne "1.prems"(2) by simp
          have "real (length rows) \<le> max desired (real (length (results @ chunk)))"
            using "1.IH" [OF True rq_def Inr ne full "1.prems"(1) rec] .
          moreover have "real (length (results @ chunk)) \<le> desired"
            using fit by (simp add: pageSizeOf_def)
          ultimately show ?thesis by simp
        qed
      qed
    qed
  qed
qed


lemma liveRequest_limit: "rq_limit (liveRequest base ps offset) = Some ps"
  by (simp add: liveRequest_def buildUrl_def)

lemma liveLoop_trace:
  assumes "liveLoop up base desired results offset sent = (res, sent')"
  shows "\<exists>new. sent' = sent @ new \<and> pagingTrace up desired (length results) sent new"
  using assms
proof (induction up base desired results offset sent rule: liveLoop.induct)
  case (1 up base desired results offset sent)
  define rq where "rq = liveRequest base (pageSizeOf desired results) offset"
  have lim: "rq_limit rq = Some (min 100 (desired - real (length results)))"
    by (simp add: rq_def liveRequest_limit pageSizeOf_def)
  show ?case
  proof (cases "real (length results) < desired")
    case False
    then have "sent' = sent @ []" "pagingTrace up desired (length results) sent []"
      using "1.prems" by (simp_all add: liveLoop_done)
    then show ?thesis by blast
  next
    case True
    show ?thesis
    proof (cases "up sent rq")
      case (Inl e)
      then have "sent' = sent @ [rq]"
        using "1.prems" liveLoop_error [where up = up and sent = sent, OF True Inl [unfolded rq_def]]
        by (simp add: rq_def)
      moreover have "pagingTrace up desired (length results) sent [rq]"
        using True lim Inl by simp
      ultimately show ?thesis by blast
    next
      case (Inr chunk)
      note run = liveLoop_page [where up = up and sent = sent, OF True Inr [unfolded rq_def], folded rq_def]
      show ?thesis
      proof (cases "chunk = [] \<or> real (length chunk) < pageSizeOf desired results")
        case stop: True
        then have short: "real (length chunk) < pageSizeOf desired results"
          using True by (auto simp: pageSizeOf_def)
        have "sent' = sent @ [rq]"
          using run "1.prems" stop by (auto split: if_splits)
        moreover have "pagingTrace up desired (length results) sent [rq]"
          using True lim Inr short by (auto simp: pageSizeOf_def)
        ultimately show ?thesis by blast
      next
        case go: False
        then have rec: "liveLoop up base desired (results @ chunk) (offset + length chunk) (sent @ [rq]) = (res, sent')"
          using run "1.prems" by simp
        obtain new where new: "sent' = (sent @ [rq]) @ new"
            "pagingTrace up desired (length (results @ chunk)) (sent @ [rq]) new"
          using "1.IH" [OF True rq_def Inr _ _ rec] go by blast
        have "pagingTrace up desired (length results) sent (rq # new)"
          using True lim Inr go new(2) by (auto simp: pageSizeOf_def)
        then show ?thesis using new(1) by auto
      qed
    qed
  qed
qed

lemma pagingTrace_limits:
  "pagingTrace up desired n sent new \<Longrightarrow> rq \<in> set new \<Longrightarrow>
     \<exists>k. rq_limit rq = Some k \<and> 0 < k \<and> k \<le> 100"
proof (induction new arbitrary: n sent)
  case Nil
  then show ?case by simp
next
  case (Cons r rs)
  show ?case
  proof (cases "rq = r")
    case True
    then show ?thesis using Cons.prems(1) by auto
  next
    case False
    then have "rq \<in> set rs" using Cons.prems(2) by simp
    moreover from this have "rs \<noteq> []" by auto
    ultimately show ?thesis
      using Cons.prems(1) Cons.IH by (auto split: sum.splits if_splits)
  qed
qed


lemma length_fetchLiveSensors:
  assumes "fetchLiveSensors rt up a sent = (Inr rows, sent')"
  obtains results where
    "liveLoop up (liveBase rt a) (desiredCount (la_limit a)) [] 0 sent = (Inr results, sent')"
    "length rows = length results"
  using assms by (auto simp: fetchLiveSensors_def split: prod.splits sum.splits)

lemma sent_fetchLiveSensors:
  assumes "fetchLiveSensors rt up a sent = (res, sent')"
  obtains res0 where
    "liveLoop up (liveBase rt a) (desiredCount (la_limit a)) [] 0 sent = (res0, sent')"
  using assms by (auto simp: fetchLiveSensors_def split: prod.splits sum.splits)

lemma desiredCount_pos: "1 \<le> desiredCount limit"
  by (simp add: desiredCount_def)

text \<open>
  C9 (amended). \<open>fetchLiveSensors\<close> sends its requests by the paging rule: each asks
  for at most 100 rows, and a further page is requested exactly when fewer rows than
  desired are collected and the last page was not shorter than requested (a failed
  request ends the fetch with its error). When the upstream never sends more rows than
  a request asks for, the returned array has at most the desired number of rows.
\<close>

theorem fetchLiveSensors_paging:
  assumes "fetchLiveSensors rt up a sent = (res, sent')"
  shows "\<exists>new. sent' = sent @ new
           \<and> pagingTrace up (desiredCount (la_limit a)) 0 sent new
           \<and> (\<forall>rq \<in> set new. \<exists>k. rq_limit rq = Some k \<and> 0 < k \<and> k \<le> 100)
           \<and> (honest up \<longrightarrow>
                (\<forall>rows. res = Inr rows \<longrightarrow> real (length rows) \<le> desiredCount (la_limit a)))"
proof -
  obtain res0 where run: "liveLoop up (liveBase rt a) (desiredCount (la_limit a)) [] 0 sent = (res0, sent')"
    using assms by (rule sent_fetchLiveSensors)
  obtain new where new: "sent' = sent @ new" "pagingTrace up (desiredCount (la_limit a)) 0 sent new"
    using liveLoop_trace [OF run] by auto
  have lim: "\<forall>rq \<in> set new. \<exists>k. rq_limit rq = Some k \<and> 0 < k \<and> k \<le> 100"
    using pagingTrace_limits [OF new(2)] by blast
  have bound: "real (length rows) \<le> desiredCount (la_limit a)" if h: "honest up" and r: "res = Inr rows" for rows
  proof -
    obtain results where
      "liveLoop up (liveBase rt a) (desiredCount (la_limit a)) [] 0 sent = (Inr results, sent')"
      "length rows = length results"
      using assms r by (auto elim: length_fetchLiveSensors)
    then show ?thesis
      using liveLoop_bound [OF h, of "liveBase rt a" "desiredCount (la_limit a)" "[]" 0 sent results sent']
        desiredCount_pos [of "la_limit a"]
      by simp
  qed
  show ?thesis using new lim bound by blast
qed

lemma honest_paged: "honest pagedUpstream"
  unfolding honest_def
proof (intro allI impI, elim conjE)
  fix sent rq rows n
  assume r: "pagedUpstream sent rq = Inr rows" and l: "rq_limit rq = Some n"
  have n: "0 \<le> n" and len: "length rows \<le> nat \<lfloor>n\<rfloor>"
    using r l by (auto simp: pagedUpstream_def split: option.splits if_splits)
  have "int (length rows) \<le> \<lfloor>n\<rfloor>" using len n by linarith
  then have "real (length rows) \<le> of_int \<lfloor>n\<rfloor>" by linarith
  also have "\<dots> \<le> n" by simp
  finally show "real (length rows) \<le> n" .
qed

lemma demo_base: "liveBase rt (limitArgs l) = [(''order_by'', JStr ''lastupdated DESC'')]"
  by (simp add: liveBase_def limitArgs_def)

lemma demo_page: "pageSizeOf 2 [] = 2"
  by (simp add: pageSizeOf_def)

lemma demo_request:
  "liveRequest [(''order_by'', JStr ''lastupdated DESC'')] 2 0 = firstPage"
  by (simp add: liveRequest_def buildUrl_def firstPage_def LIVE_DATASET_ID_def)

lemma demo_normCoord: "map normCoord demoBays = demoBays"
  by (simp add: demoBays_def normCoord_def liftCoord_def getProp_def)

lemma demo_desired: "desiredCount (la_limit (limitArgs 2)) = 2"
  by (simp add: desiredCount_def limitArgs_def)

lemma demo_loop:
  assumes "up [] firstPage = Inr chunk" and "length chunk = 2 \<or> length chunk = 3"
  shows "liveLoop up [(''order_by'', JStr ''lastupdated DESC'')] 2 [] 0 [] = (Inr chunk, [firstPage])"
proof -
  have ne: "chunk \<noteq> []" and full: "\<not> real (length chunk) < 2"
    using assms(2) by auto
  have "liveLoop up [(''order_by'', JStr ''lastupdated DESC'')] 2 [] 0 []
          = liveLoop up [(''order_by'', JStr ''lastupdated DESC'')] 2 ([] @ chunk) (0 + length chunk)
              ([] @ [firstPage])"
    using liveLoop_page [where up = up and sent = "[]" and results = "[]" and desired = 2
        and base = "[(''order_by'', JStr ''lastupdated DESC'')]" and offset = 0 and chunk = chunk]
      assms(1) ne full
    by (simp only: demo_page demo_request if_False) simp
  also have "\<dots> = (Inr chunk, [firstPage])"
    using full by (simp add: liveLoop_done)
  finally show ?thesis .
qed

lemma paged_fetch:
  "fetchLiveSensors rt pagedUpstream (limitArgs 2) [] = (Inr (take 2 demoBays), [firstPage])"
proof -
  have p: "pagedUpstream [] firstPage = Inr (take 2 demoBays)"
    by (simp add: pagedUpstream_def firstPage_def)
  have "length (take 2 demoBays) = 2" by (simp add: demoBays_def)
  then have "liveLoop pagedUpstream [(''order_by'', JStr ''lastupdated DESC'')] 2 [] 0 []
          = (Inr (take 2 demoBays), [firstPage])"
    using demo_loop [of pagedUpstream "take 2 demoBays", OF p] by simp
  moreover have "map normCoord (take 2 demoBays) = take 2 demoBays"
    by (simp add: demoBays_def normCoord_def liftCoord_def getProp_def)
  ultimately show ?thesis
    by (simp add: fetchLiveSensors_def demo_base demo_desired)
qed

lemma greedy_fetch:
  "fetchLiveSensors rt greedyUpstream (limitArgs 2) [] = (Inr demoBays, [firstPage])"
proof -
  have "length demoBays = 3" by (simp add: demoBays_def)
  then have "liveLoop greedyUpstream [(''order_by'', JStr ''lastupdated DESC'')] 2 [] 0 []
          = (Inr demoBays, [firstPage])"
    using demo_loop [of greedyUpstream demoBays] by (simp add: greedyUpstream_def)
  then show ?thesis
    by (simp add: fetchLiveSensors_def demo_base demo_desired demo_normCoord)
qed

theorem fetchLiveSensors_paging_witness:
  "fetchLiveSensors demoRuntime pagedUpstream (limitArgs 2) [] = (Inr (take 2 demoBays), [firstPage])
   \<and> honest pagedUpstream
   \<and> pagingTrace pagedUpstream (desiredCount (la_limit (limitArgs 2))) 0 [] [firstPage]
   \<and> rq_limit firstPage = Some 2
   \<and> real (length (take 2 demoBays)) \<le> desiredCount (la_limit (limitArgs 2))"
  using fetchLiveSensors_paging [OF paged_fetch [of demoRuntime]] honest_paged
  by (simp add: paged_fetch demo_desired)

text \<open>
  C9 as stated fails for an upstream that ignores \<open>limit\<close>: with a desired count of 2 and
  a first page of three rows, all three rows are returned.
\<close>

theorem fetchLiveSensors_overshoot_counterexample:
  "fetchLiveSensors demoRuntime greedyUpstream (limitArgs 2) [] = (Inr demoBays, [firstPage])
   \<and> desiredCount (la_limit (limitArgs 2)) = 2
   \<and> length demoBays = 3"
  by (simp add: greedy_fetch demo_desired) (simp add: demoBays_def)

section \<open>Properties of the event aggregation\<close>

lemma iso_examples:
  "parseIsoMinute ''2024-01-01T00:00Z'' = Date 1704067200000"
  "parseIsoMinute ''2024-01-01T10:00Z'' = Date 1704103200000"
  "parseIsoMinute ''2024-01-01T12:30Z'' = Date 1704112200000"
  "parseIsoMinute ''2024-01-01T23:59Z'' = Date 1704153540000"
  by (simp_all add: parseIsoMinute_def digitAt_def daysFromCivil_def daysInMonth_def eval_nat_numeral)


lemma pick_bayIdRow:
  "pickField bayIdRow BAY_FIELDS = JStr ''A''"
  "pickField bayIdRow ARRIVAL_FIELDS = JStr ''2024-01-01T10:00Z''"
  "pickField bayIdRow DEPARTURE_FIELDS = JStr ''2024-01-01T12:30Z''"
  by (simp_all add: bayIdRow_def BAY_FIELDS_def ARRIVAL_FIELDS_def DEPARTURE_FIELDS_def getProp_def)

lemma pick_specRow:
  "pickField specRow BAY_FIELDS = JUndefined"
  "pickField specRow ARRIVAL_FIELDS = JStr ''2024-01-01T10:00Z''"
  "pickField specRow DEPARTURE_FIELDS = JStr ''2024-01-01T12:30Z''"
  by (simp_all add: specRow_def BAY_FIELDS_def ARRIVAL_FIELDS_def DEPARTURE_FIELDS_def getProp_def)

lemma walk_example:
  "hourWalk 1704103200000 1704110400000 []
     = [(1704103200000, 1), (1704106800000, 1), (1704110400000, 1)]"
  by (simp add: hourWalk.simps bumpHour_def)

lemma floor_examples:
  "floorHour 1704103200000 = 1704103200000" "floorHour 1704112200000 = 1704110400000"
  by (simp_all add: floorHour_def msPerHour_def)

lemma addEvent_example:
  assumes "parseDate rt ''2024-01-01T10:00Z'' = Date 1704103200000"
    and "parseDate rt ''2024-01-01T12:30Z'' = Date 1704112200000"
    and "pickField r ARRIVAL_FIELDS = JStr ''2024-01-01T10:00Z''"
    and "pickField r DEPARTURE_FIELDS = JStr ''2024-01-01T12:30Z''"
  shows "addEvent rt (Date 1704067200000) (Date 1704153540000) r ([], [])
           = (let bay = jsString rt (nullishOr (pickField r BAY_FIELDS) (JStr []))
              in if bay \<noteq> [] then [bay] else [],
              [(1704103200000, 1), (1704106800000, 1), (1704110400000, 1)])"
  using assms
  by (simp add: addEvent_def orElse_def floor_examples walk_example Let_def)

text \<open>
  C5 (amended). With the bay under a recognised bay column (\<open>bay_id\<close>), the single row
  with arrival 10:00 and departure 12:30 on 2024-01-01, in the window from 00:00 to
  23:59 of that day, gives capacity 1 and exactly three buckets, for the hours 10, 11
  and 12 UTC, each with \<open>occ = 1\<close>. This holds for every runtime whose date parser reads
  the four strings as the instants they denote.
\<close>

theorem events_hourly_example:
  assumes "parseDate rt ''2024-01-01T00:00Z'' = Date 1704067200000"
    and "parseDate rt ''2024-01-01T23:59Z'' = Date 1704153540000"
    and "parseDate rt ''2024-01-01T10:00Z'' = Date 1704103200000"
    and "parseDate rt ''2024-01-01T12:30Z'' = Date 1704112200000"
  shows "aggregateEventsToHourly rt [bayIdRow] (JStr ''2024-01-01T00:00Z'') (JStr ''2024-01-01T23:59Z'')
           = (1, [hourBucket 1704103200000 1 1, hourBucket 1704106800000 1 1,
                  hourBucket 1704110400000 1 1])"
  using assms(1,2) addEvent_example [OF assms(3,4) pick_bayIdRow(2,3)]
  by (simp add: aggregateEventsToHourly_def pick_bayIdRow nullishOr_def hourBucket_def)

theorem events_hourly_example_witness:
  "parseDate isoRuntime ''2024-01-01T00:00Z'' = Date 1704067200000
   \<and> parseDate isoRuntime ''2024-01-01T23:59Z'' = Date 1704153540000
   \<and> parseDate isoRuntime ''2024-01-01T10:00Z'' = Date 1704103200000
   \<and> parseDate isoRuntime ''2024-01-01T12:30Z'' = Date 1704112200000
   \<and> aggregateEventsToHourly isoRuntime [bayIdRow] (JStr ''2024-01-01T00:00Z'') (JStr ''2024-01-01T23:59Z'')
       = (1, [hourBucket 1704103200000 1 1, hourBucket 1704106800000 1 1,
              hourBucket 1704110400000 1 1])"
proof -
  have p: "parseDate isoRuntime ''2024-01-01T00:00Z'' = Date 1704067200000"
    "parseDate isoRuntime ''2024-01-01T23:59Z'' = Date 1704153540000"
    "parseDate isoRuntime ''2024-01-01T10:00Z'' = Date 1704103200000"
    "parseDate isoRuntime ''2024-01-01T12:30Z'' = Date 1704112200000"
    by (simp_all add: isoRuntime_def iso_examples)
  show ?thesis
    using events_hourly_example [OF p] p by simp
qed

text \<open>
  C5 as stated fails. The row of the example names its bay under \<open>bay\<close>, which is not
  one of \<open>BAY_FIELDS\<close>: no bay is counted, the capacity is 0, and \<open>occ\<close> is capped to 0 in
  the three buckets.
\<close>

theorem events_hourly_bay_counterexample:
  "aggregateEventsToHourly isoRuntime [specRow] (JStr ''2024-01-01T00:00Z'') (JStr ''2024-01-01T23:59Z'')
     = (0, [hourBucket 1704103200000 0 0, hourBucket 1704106800000 0 0,
            hourBucket 1704110400000 0 0])"
proof -
  have p: "parseDate isoRuntime ''2024-01-01T00:00Z'' = Date 1704067200000"
    "parseDate isoRuntime ''2024-01-01T23:59Z'' = Date 1704153540000"
    "parseDate isoRuntime ''2024-01-01T10:00Z'' = Date 1704103200000"
    "parseDate isoRuntime ''2024-01-01T12:30Z'' = Date 1704112200000"
    by (simp_all add: isoRuntime_def iso_examples)
  show ?thesis
    using p(1,2) addEvent_example [OF p(3,4) pick_specRow(2,3)]
    by (simp add: aggregateEventsToHourly_def pick_specRow nullishOr_def hourBucket_def)
qed

section \<open>Properties of the three-tier fallback\<close>

lemma rangeLoop_down:
  "rangeLoop downUpstream mk limit [] offset sent
     = (if 0 < limit then (Inl TransportError, sent @ [mk (pageSizeOf limit []) offset]) else (Inr [], sent))"
  by (simp add: rangeLoop.simps [of _ _ _ "[]"] downUpstream_def)

lemma rangeLoop_empty:
  "rangeLoop emptyUpstream mk limit [] offset sent
     = (Inr [], if 0 < limit then sent @ [mk (pageSizeOf limit []) offset] else sent)"
  by (simp add: rangeLoop.simps [of _ _ _ "[]"] emptyUpstream_def)

lemma tryFields_down: "fst (tryFields rt downUpstream ds fs startISO endISO g limit sent) = []"
  by (induction fs arbitrary: sent) (simp_all add: fetchAnnualRangeOnce_def rangeLoop_down)

lemma tryFields_empty: "fst (tryFields rt emptyUpstream ds fs startISO endISO g limit sent) = []"
  by (induction fs arbitrary: sent) (simp_all add: fetchAnnualRangeOnce_def rangeLoop_empty)

lemma overlapsLoop_no_rows:
  assumes "\<And>ds fs sent. fst (tryFields rt up ds fs startISO endISO g limit sent) = []"
  shows "fst (overlapsLoop rt up dss startISO endISO g limit (seen, out) sent) = out"
proof (induction dss arbitrary: sent)
  case Nil
  show ?case by simp
next
  case (Cons ds dss)
  obtain fields sent1 where d: "detectTimeFields up ds sent = (fields, sent1)"
    by (cases "detectTimeFields up ds sent")
  obtain arrival departure where f: "fields = (arrival, departure)"
    by (cases fields)
  define ac where "ac = (case arrival of Some f \<Rightarrow> [f] | None \<Rightarrow> ARRIVAL_FIELDS)"
  define dc where "dc = (case departure of Some f \<Rightarrow> [f] | None \<Rightarrow> DEPARTURE_FIELDS)"
  obtain sent2 where a: "tryFields rt up ds ac startISO endISO g limit sent1 = ([], sent2)"
    using assms [of ds ac sent1] by (cases "tryFields rt up ds ac startISO endISO g limit sent1") simp
  obtain sent3 where b: "tryFields rt up ds dc startISO endISO g limit sent2 = ([], sent3)"
    using assms [of ds dc sent2] by (cases "tryFields rt up ds dc startISO endISO g limit sent2") simp
  show ?case
    using Cons.IH [of sent3] d f a b by (simp add: ac_def dc_def)
qed

lemma overlaps_down:
  "fst (fetchAnnualEventsOverlaps rt downUpstream dss startISO endISO g limit sent) = []"
  unfolding fetchAnnualEventsOverlaps_def
  by (rule overlapsLoop_no_rows) (rule tryFields_down)

lemma overlaps_empty:
  "fst (fetchAnnualEventsOverlaps rt emptyUpstream dss startISO endISO g limit sent) = []"
  unfolding fetchAnnualEventsOverlaps_def
  by (rule overlapsLoop_no_rows) (rule tryFields_empty)

lemma aggregate_no_rows: "aggregateEventsToHourly rt [] startISO endISO = (0, [])"
  by (simp add: aggregateEventsToHourly_def)

lemma proxy_down:
  "fst (proxyAnnualByPedestrian rt downUpstream g startISO endISO sent) = Inl TransportError"
  by (simp add: proxyAnnualByPedestrian_def downUpstream_def split: prod.splits)

lemma tierA_unusable:
  assumes "fst (fetchAnnualEventsOverlaps rt up
                  (if aa_datasetIds a \<noteq> [] then aa_datasetIds a else ANNUAL_DEFAULTS)
                  (aa_startISO a) (aa_endISO a) (aa_origin a) (aa_limitPerDataset a) sent) = []"
  shows "\<exists>sent1. fetchAnnualHourlyByRadius rt up a sent =
           (case proxyAnnualByPedestrian rt up (aa_origin a) (aa_startISO a) (aa_endISO a) sent1 of
              (Inl e, sent2) \<Rightarrow> (Inl e, sent2)
            | (Inr (pcap, pseries), sent2) \<Rightarrow>
                (Inr (if pcap > 0 then pcap else 60,
                      if pseries \<noteq> [] then pseries
                      else synthSeries diurnalShape (if pcap > 0 then pcap else 60)
                             (newDate rt (aa_startISO a)) (newDate rt (aa_endISO a))), sent2))"
proof -
  obtain sent1 where "fetchAnnualEventsOverlaps rt up
                  (if aa_datasetIds a \<noteq> [] then aa_datasetIds a else ANNUAL_DEFAULTS)
                  (aa_startISO a) (aa_endISO a) (aa_origin a) (aa_limitPerDataset a) sent = ([], sent1)"
    using assms by (metis prod.collapse)
  then have "fetchAnnualHourlyByRadius rt up a sent =
           (case proxyAnnualByPedestrian rt up (aa_origin a) (aa_startISO a) (aa_endISO a) sent1 of
              (Inl e, sent2) \<Rightarrow> (Inl e, sent2)
            | (Inr (pcap, pseries), sent2) \<Rightarrow>
                (Inr (if pcap > 0 then pcap else 60,
                      if pseries \<noteq> [] then pseries
                      else synthSeries diurnalShape (if pcap > 0 then pcap else 60)
                             (newDate rt (aa_startISO a)) (newDate rt (aa_endISO a))), sent2))"
    by (simp add: fetchAnnualHourlyByRadius_def aggregate_no_rows Let_def split: prod.splits sum.splits)
  then show ?thesis by blast
qed

lemma synthLoop_grows: "length series \<le> length (synthLoop ratio cap t e series)"
proof (induction ratio cap t e series rule: synthLoop.induct)
  case (1 ratio cap t e series)
  show ?case
  proof (cases "t \<le> e")
    case True
    then show ?thesis
      using "1.IH" [OF True] by (subst synthLoop.simps) (simp add: Let_def)
  next
    case False
    then show ?thesis by (subst synthLoop.simps) simp
  qed
qed

lemma synthLoop_nonempty:
  assumes "t \<le> e"
  shows "synthLoop ratio cap t e series \<noteq> []"
proof -
  define b where "b = (let h = getUTCHours t; free = max 0 (min cap (js_round (of_int cap * ratio h)))
                       in \<lparr>hb_ts = t, hb_free = free, hb_occ = cap - free, hb_total = cap\<rparr>)"
  have "synthLoop ratio cap t e series = synthLoop ratio cap (t + 3600000) e (series @ [b])"
    using assms by (subst synthLoop.simps) (simp add: b_def)
  moreover have "length (series @ [b]) \<le> length (synthLoop ratio cap (t + 3600000) e (series @ [b]))"
    by (rule synthLoop_grows)
  ultimately show ?thesis by auto
qed

lemma synthSeries_nonempty:
  "start = Date s \<Longrightarrow> end = Date e \<Longrightarrow> s \<le> e \<Longrightarrow> synthSeries ratio cap start end \<noteq> []"
  by (simp add: synthSeries_def synthLoop_nonempty)

text \<open>
  What \<open>fetchAnnualHourlyByRadius\<close> returns, when it returns: a capacity above 0 and,
  for a valid window with \<open>start \<le> end\<close>, a series that is not empty.
\<close>

lemma fetchAnnual_result:
  assumes "fetchAnnualHourlyByRadius rt up a sent = (Inr (cap, series), sent')"
  shows "cap > 0"
    and "newDate rt (aa_startISO a) = Date s \<Longrightarrow> newDate rt (aa_endISO a) = Date e \<Longrightarrow> s \<le> e
         \<Longrightarrow> series \<noteq> []"
proof -
  show "cap > 0"
    using assms
    by (auto simp: fetchAnnualHourlyByRadius_def Let_def split: prod.splits sum.splits if_splits)
  assume w: "newDate rt (aa_startISO a) = Date s" "newDate rt (aa_endISO a) = Date e" "s \<le> e"
  show "series \<noteq> []"
    using assms synthSeries_nonempty [OF w]
    by (auto simp: fetchAnnualHourlyByRadius_def Let_def split: prod.splits sum.splits if_splits)
qed

lemma liveLoop_empty:
  assumes "0 < desired"
  shows "liveLoop emptyUpstream base desired [] offset sent
           = (Inr [], sent @ [liveRequest base (pageSizeOf desired []) offset])"
  using assms
    liveLoop_page [where up = emptyUpstream and sent = sent and results = "[]" and desired = desired
      and base = base and offset = offset and chunk = "[]"]
  by (simp add: emptyUpstream_def)

lemma capacity_empty: "fst (estimateCapacity rt emptyUpstream g sent) = 0"
  by (simp add: estimateCapacity_def fetchLiveSensors_def desiredCount_def liveLoop_empty liveIds_def)

lemma proxy_empty:
  "fst (proxyAnnualByPedestrian rt emptyUpstream g startISO endISO sent)
     = Inr (60, synthSeries diurnalShape 60 (newDate rt startISO) (newDate rt endISO))"
proof -
  obtain c sent1 where e: "estimateCapacity rt emptyUpstream g sent = (c, sent1)"
    by (cases "estimateCapacity rt emptyUpstream g sent")
  then have "c = 0" using capacity_empty [of rt g sent] by simp
  then show ?thesis
    using e by (simp add: proxyAnnualByPedestrian_def emptyUpstream_def List.map_filter_simps sortLocs_def
        split: option.splits)
qed

text \<open>
  The simulation named in the specification: when every upstream request returns no
  rows, tiers A and B find nothing and the synthetic curve is returned for 60 bays.
\<close>

lemma fetchAnnual_all_empty:
  "fst (fetchAnnualHourlyByRadius rt emptyUpstream a sent)
     = Inr (60, synthSeries diurnalShape 60 (newDate rt (aa_startISO a)) (newDate rt (aa_endISO a)))"
proof -
  obtain sent1 where
    r: "fetchAnnualHourlyByRadius rt emptyUpstream a sent =
           (case proxyAnnualByPedestrian rt emptyUpstream (aa_origin a) (aa_startISO a) (aa_endISO a) sent1 of
              (Inl e, sent2) \<Rightarrow> (Inl e, sent2)
            | (Inr (pcap, pseries), sent2) \<Rightarrow>
                (Inr (if pcap > 0 then pcap else 60,
                      if pseries \<noteq> [] then pseries
                      else synthSeries diurnalShape (if pcap > 0 then pcap else 60)
                             (newDate rt (aa_startISO a)) (newDate rt (aa_endISO a))), sent2))"
    using tierA_unusable [OF overlaps_empty] by blast
  obtain sent2 where
    "proxyAnnualByPedestrian rt emptyUpstream (aa_origin a) (aa_startISO a) (aa_endISO a) sent1
       = (Inr (60, synthSeries diurnalShape 60 (newDate rt (aa_startISO a)) (newDate rt (aa_endISO a))), sent2)"
    using proxy_empty [of rt "aa_origin a" "aa_startISO a" "aa_endISO a" sent1] by (metis prod.collapse)
  then show ?thesis using r by simp
qed

text \<open>
  C1. When every upstream request fails, tier A yields no rows and its failures are
  swallowed, but the request of tier B for the pedestrian sensor locations is made
  outside every \<open>try\<close>: \<open>fetchAnnualHourlyByRadius\<close> ends with that error and returns no
  series.
\<close>

theorem fetchAnnual_propagates_failure:
  "fst (fetchAnnualHourlyByRadius rt downUpstream a sent) = Inl TransportError"
proof -
  obtain sent1 where
    "fetchAnnualHourlyByRadius rt downUpstream a sent =
           (case proxyAnnualByPedestrian rt downUpstream (aa_origin a) (aa_startISO a) (aa_endISO a) sent1 of
              (Inl e, sent2) \<Rightarrow> (Inl e, sent2)
            | (Inr (pcap, pseries), sent2) \<Rightarrow>
                (Inr (if pcap > 0 then pcap else 60,
                      if pseries \<noteq> [] then pseries
                      else synthSeries diurnalShape (if pcap > 0 then pcap else 60)
                             (newDate rt (aa_startISO a)) (newDate rt (aa_endISO a))), sent2))"
    using tierA_unusable [OF overlaps_down] by blast
  moreover obtain sent2 where
    "proxyAnnualByPedestrian rt downUpstream (aa_origin a) (aa_startISO a) (aa_endISO a) sent1
       = (Inl TransportError, sent2)"
    using proxy_down [of rt "aa_origin a" "aa_startISO a" "aa_endISO a" sent1] by (metis prod.collapse)
  ultimately show ?thesis by simp
qed

end
